theory Spec2Isabelle
  imports
    Main
    "HOL-Library.Char_ord"
    "HOL-Library.List_Lexorder"
    "HOL-Library.Product_Lexorder"
    "HOL-Library.Multiset"
begin

section \<open>The store: the four tables of \<^verbatim>\<open>init_db\<close>\<close>

text \<open>
  One record per table row, with the columns of the \<^verbatim>\<open>CREATE TABLE\<close> statements of
  \<^verbatim>\<open>init_db\<close> (src/app.py, lines 18 to 66). An SQLite \<^verbatim>\<open>INTEGER\<close> is an \<open>int\<close>, a
  \<^verbatim>\<open>TEXT\<close> column a \<open>string\<close>, a nullable column an \<open>option\<close>. A table is the list of its
  rows in insertion order. Every table is \<^verbatim>\<open>AUTOINCREMENT\<close>: SQLite keeps, per table,
  the largest rowid ever handed out (table \<^verbatim>\<open>sqlite_sequence\<close>); the store carries that
  counter for each table. The integers a table holds are taken unbounded: the 64-bit limit
  is out of reach of counters that start at 1 and grow by 1. The store is the committed
  content of the database file.
\<close>

record household =
  h_id :: int
  h_name :: string
  h_created_at :: string

record member =
  m_id :: int
  m_household_id :: int
  m_name :: string
  m_email :: "string option"
  m_join_order :: int
  m_created_at :: string

record chore =
  c_id :: int
  c_household_id :: int
  c_title :: string
  c_cadence :: string
  c_created_at :: string

record assignment =
  a_id :: int
  a_household_id :: int
  a_week_start :: string
  a_chore_id :: int
  a_member_id :: int
  a_status :: string
  a_proof_url :: "string option"
  a_created_at :: string

record db =
  households :: "household list"
  members :: "member list"
  chores :: "chore list"
  assignments :: "assignment list"
  seq_households :: int
  seq_members :: int
  seq_chores :: int
  seq_assignments :: int

text \<open>\<^verbatim>\<open>init_db\<close> on a fresh file: four empty tables.\<close>

definition init_db :: db where
  "init_db = \<lparr>households = [], members = [], chores = [], assignments = [],
     seq_households = 0, seq_members = 0, seq_chores = 0, seq_assignments = 0\<rparr>"

text \<open>
  \<^verbatim>\<open>cur.lastrowid\<close> after an insert into an \<^verbatim>\<open>AUTOINCREMENT\<close> table: one more than the
  largest rowid the table has ever held.
\<close>

definition lastrowid :: "int \<Rightarrow> int list \<Rightarrow> int" where
  "lastrowid seq ids = fold max ids seq + 1"

text \<open>
  An SQLite \<^verbatim>\<open>INTEGER\<close> is a signed 64-bit number. The ids of the routes
  (\<^verbatim>\<open><int:hid>\<close>, \<^verbatim>\<open><int:aid>\<close>) are Python integers of any size, and
  \<^verbatim>\<open>cur.execute\<close> raises \<^verbatim>\<open>OverflowError\<close> when it is given one that does not fit.
\<close>

definition sqlite_int :: "int \<Rightarrow> bool" where
  "sqlite_int n = (- 9223372036854775808 \<le> n \<and> n < 9223372036854775808)"

section \<open>The request and the world outside\<close>

text \<open>
  What a handler reads from Flask's \<^verbatim>\<open>request\<close>: the JSON body (\<^verbatim>\<open>request.json or {}\<close>),
  the query string (\<^verbatim>\<open>request.args\<close>) and the form fields (\<^verbatim>\<open>request.form\<close>), each a
  list of key and value; \<^verbatim>\<open>data.get(k)\<close> is \<open>map_of data k\<close>.
\<close>

record request =
  json :: "(string \<times> string) list"
  args :: "(string \<times> string) list"
  form :: "(string \<times> string) list"

text \<open>
  A \<^verbatim>\<open>datetime.date\<close> is represented by its proleptic Gregorian ordinal
  (\<^verbatim>\<open>date.toordinal()\<close>: day 1 is 0001-01-01, the largest date 9999-12-31 is day
  3652059). The world gives \<^verbatim>\<open>datetime.date.today()\<close>, the text of \<^verbatim>\<open>now_iso()\<close>, and
  the library's rendering \<^verbatim>\<open>date.isoformat()\<close>. One call of a handler sees one
  reading of the calendar and of the clock; the clock only fills \<^verbatim>\<open>created_at\<close>.
\<close>

type_synonym date = int

record env =
  today :: date
  utcnow :: string
  isoformat :: "date \<Rightarrow> string"

datatype error = IntegrityError | OverflowError | ZeroDivisionError

text \<open>\<^verbatim>\<open>date.weekday()\<close>: Monday is 0, Sunday is 6.\<close>

definition weekday :: "date \<Rightarrow> int" where
  "weekday d = (d + 6) mod 7"

text \<open>\<^verbatim>\<open>d - datetime.timedelta(days=k)\<close>: raises \<^verbatim>\<open>OverflowError\<close> outside the date range.\<close>

definition date_sub_days :: "date \<Rightarrow> int \<Rightarrow> error + date" where
  "date_sub_days d k =
     (let n = d - k in if 1 \<le> n \<and> n \<le> 3652059 then Inr n else Inl OverflowError)"

definition now_iso :: "env \<Rightarrow> string" where
  "now_iso e = utcnow e"

definition monday_of_week :: "env \<Rightarrow> date option \<Rightarrow> error + date" where
  "monday_of_week e d =
     (let d' = (case d of None \<Rightarrow> today e | Some x \<Rightarrow> x)
      in date_sub_days d' (weekday d'))"

definition iso_date :: "env \<Rightarrow> date \<Rightarrow> string" where
  "iso_date e d = isoformat e d"

text \<open>The expression \<^verbatim>\<open>iso_date(monday_of_week())\<close> of lines 184 and 206.\<close>

definition this_week :: "env \<Rightarrow> error + string" where
  "this_week e =
     (case monday_of_week e None of Inl x \<Rightarrow> Inl x | Inr m \<Rightarrow> Inr (iso_date e m))"

text \<open>The responses of the handlers: the JSON body and, for an error, the status code.\<close>

record assignment_view =
  v_row :: assignment
  v_chore_title :: string
  v_member_name :: string

datatype response =
    Assignments_json string "assignment_view list"
  | Error_json string nat
  | Completed_json int string "string option"
  | Member_json int string "string option" int
  | Chore_json int string string
  | Household_json int string

section \<open>The fairness ranker: \<^verbatim>\<open>pick_member_round_robin\<close>\<close>

text \<open>
  Line 82: the members of the household, \<^verbatim>\<open>ORDER BY join_order ASC, id ASC\<close>.
\<close>

definition household_members :: "db \<Rightarrow> int \<Rightarrow> member list" where
  "household_members d hid =
     sort_key (\<lambda>m. (m_join_order m, m_id m)) (filter (\<lambda>m. m_household_id m = hid) (members d))"

text \<open>
  Lines 88 to 94: the rows \<^verbatim>\<open>WHERE household_id=? AND week_start < ?\<close>, grouped by
  \<^verbatim>\<open>member_id\<close> with \<^verbatim>\<open>COUNT(*)\<close>, then turned into the dictionary \<^verbatim>\<open>hist\<close>. The
  comparison of two \<^verbatim>\<open>TEXT\<close> values is bytewise, a proper prefix being smaller: the
  order of \<open>string\<close> here.
\<close>

definition past_assignments :: "db \<Rightarrow> int \<Rightarrow> string \<Rightarrow> assignment list" where
  "past_assignments d hid week_start =
     filter (\<lambda>a. a_household_id a = hid \<and> a_week_start a < week_start) (assignments d)"

definition hist_rows :: "db \<Rightarrow> int \<Rightarrow> string \<Rightarrow> (int \<times> int) list" where
  "hist_rows d hid week_start =
     (let rows = past_assignments d hid week_start
      in map (\<lambda>m. (m, int (length (filter (\<lambda>a. a_member_id a = m) rows))))
           (remdups (map a_member_id rows)))"

text \<open>\<^verbatim>\<open>hist.get(m["id"], 0)\<close>.\<close>

definition hist_get :: "(int \<times> int) list \<Rightarrow> int \<Rightarrow> int" where
  "hist_get hist m = (case map_of hist m of None \<Rightarrow> 0 | Some cnt \<Rightarrow> cnt)"

text \<open>Lines 95 to 99: the list \<^verbatim>\<open>scored\<close> after \<^verbatim>\<open>scored.sort\<close>, tuples compared
  lexicographically.\<close>

definition scored :: "db \<Rightarrow> int \<Rightarrow> string \<Rightarrow> (int \<times> int \<times> int) list" where
  "scored d hid week_start =
     (let hist = hist_rows d hid week_start
      in sort (map (\<lambda>m. (hist_get hist (m_id m), m_join_order m, m_id m))
                 (household_members d hid)))"

definition pick_member_round_robin :: "db \<Rightarrow> int \<Rightarrow> string \<Rightarrow> int list" where
  "pick_member_round_robin d hid week_start =
     (if household_members d hid = [] then []
      else map (\<lambda>(_, _, mid). mid) (scored d hid week_start))"

section \<open>Reading a week: \<^verbatim>\<open>get_current_assignments\<close>\<close>

text \<open>
  Lines 187 to 195: the assignments of the household and week, each joined with its chore
  and its member (inner joins), \<^verbatim>\<open>ORDER BY a.id ASC\<close>.
\<close>

definition week_rows :: "db \<Rightarrow> int \<Rightarrow> string \<Rightarrow> assignment_view list" where
  "week_rows d hid week_start =
     concat (map (\<lambda>a.
         concat (map (\<lambda>c.
             map (\<lambda>m. \<lparr>v_row = a, v_chore_title = c_title c, v_member_name = m_name m\<rparr>)
               (filter (\<lambda>m. m_id m = a_member_id a) (members d)))
           (filter (\<lambda>c. c_id c = a_chore_id a) (chores d))))
       (sort_key a_id
          (filter (\<lambda>a. a_household_id a = hid \<and> a_week_start a = week_start) (assignments d))))"

text \<open>
  The handler reads the week from the query string (\<^verbatim>\<open>request.args\<close>), and takes this
  week's Monday only when the parameter is absent (\<^verbatim>\<open>is None\<close>). The query of line
  187 binds \<^verbatim>\<open>hid\<close>.
\<close>

definition get_current_assignments :: "env \<Rightarrow> request \<Rightarrow> int \<Rightarrow> db \<Rightarrow> error + response" where
  "get_current_assignments e req hid d =
     (case (case map_of (args req) ''week_start'' of
              None \<Rightarrow> this_week e
            | Some w \<Rightarrow> Inr w) of
        Inl x \<Rightarrow> Inl x
      | Inr week_start \<Rightarrow>
          if \<not> sqlite_int hid then Inl OverflowError
          else Inr (Assignments_json week_start (week_rows d hid week_start)))"

section \<open>Generating a week: \<^verbatim>\<open>rotate\<close>\<close>

text \<open>
  Line 206: \<^verbatim>\<open>data.get("week_start") or iso_date(monday_of_week())\<close>, read from the JSON
  body; Python's \<^verbatim>\<open>or\<close> takes the right operand for an absent and for an empty string.
\<close>

definition requested_week :: "env \<Rightarrow> request \<Rightarrow> error + string" where
  "requested_week e req =
     (case map_of (json req) ''week_start'' of
        None \<Rightarrow> this_week e
      | Some w \<Rightarrow> if w = [] then this_week e else Inr w)"

text \<open>
  Lines 236 to 240: one \<^verbatim>\<open>INSERT\<close>. The table's \<^verbatim>\<open>UNIQUE(household_id, week_start,
  chore_id)\<close> (line 59) rejects a second row for the same key with
  \<^verbatim>\<open>sqlite3.IntegrityError\<close>. Foreign keys are not checked: \<^verbatim>\<open>PRAGMA foreign_keys=ON\<close>
  holds for the connection of \<^verbatim>\<open>init_db\<close> only.
\<close>

definition week_key_taken :: "db \<Rightarrow> int \<Rightarrow> string \<Rightarrow> int \<Rightarrow> bool" where
  "week_key_taken d hid week_start chore_id =
     list_ex (\<lambda>a. a_household_id a = hid \<and> a_week_start a = week_start
                  \<and> a_chore_id a = chore_id) (assignments d)"

definition insert_assignment ::
  "env \<Rightarrow> int \<Rightarrow> string \<Rightarrow> int \<Rightarrow> int \<Rightarrow> db \<Rightarrow> error + (int \<times> db)" where
  "insert_assignment e hid week_start chore_id member_id d =
     (if week_key_taken d hid week_start chore_id
      then Inl IntegrityError
      else
        let rid = lastrowid (seq_assignments d) (map a_id (assignments d))
        in Inr (rid,
             d\<lparr>assignments := assignments d @
                  [\<lparr>a_id = rid, a_household_id = hid, a_week_start = week_start,
                    a_chore_id = chore_id, a_member_id = member_id,
                    a_status = ''assigned'', a_proof_url = None,
                    a_created_at = now_iso e\<rparr>],
               seq_assignments := rid\<rparr>))"

text \<open>
  Lines 231 to 240: the loop over \<^verbatim>\<open>chores\<close>, with its variables \<^verbatim>\<open>i\<close> and \<^verbatim>\<open>created\<close>
  and the rows written so far in the open transaction.
\<close>

fun assign_loop ::
  "env \<Rightarrow> int \<Rightarrow> string \<Rightarrow> int list \<Rightarrow> int list \<Rightarrow> nat \<Rightarrow> int list \<Rightarrow> db
     \<Rightarrow> error + (int list \<times> db)" where
  "assign_loop e hid week_start order [] i created d = Inr (created, d)"
| "assign_loop e hid week_start order (chore_id # rest) i created d =
     (if order = [] then Inl ZeroDivisionError
      else
        let member_id = order ! (i mod length order)
        in case insert_assignment e hid week_start chore_id member_id d of
             Inl x \<Rightarrow> Inl x
           | Inr (rid, d') \<Rightarrow>
               assign_loop e hid week_start order rest (i + 1) (created @ [rid]) d')"

text \<open>
  Lines 230 to 244: the loop, \<^verbatim>\<open>conn.commit()\<close> and the answer. The second component is
  the committed store: an exception leaves before \<^verbatim>\<open>commit\<close>, so the store is the one
  the transaction started from. These lines run after line 211 has bound \<^verbatim>\<open>hid\<close>, and
  the chore and member ids they bind were read from the store.
\<close>

text \<open>
  \<^verbatim>\<open>rotate\<close> itself: line 206 computes the week, line 211 binds \<^verbatim>\<open>hid\<close> for the first
  time.
\<close>

definition rotate_insert ::
  "env \<Rightarrow> request \<Rightarrow> int \<Rightarrow> string \<Rightarrow> int list \<Rightarrow> int list \<Rightarrow> db
     \<Rightarrow> (error + response) \<times> db" where
  "rotate_insert e req hid week_start order chore_ids d =
     (case assign_loop e hid week_start order chore_ids 0 [] d of
        Inl x \<Rightarrow> (Inl x, d)
      | Inr (created, d') \<Rightarrow> (get_current_assignments e req hid d', d'))"

definition rotate :: "env \<Rightarrow> request \<Rightarrow> int \<Rightarrow> db \<Rightarrow> (error + response) \<times> db" where
  "rotate e req hid d =
     (case requested_week e req of
        Inl x \<Rightarrow> (Inl x, d)
      | Inr week_start \<Rightarrow>
          if \<not> sqlite_int hid then (Inl OverflowError, d)
          else if length (filter (\<lambda>a. a_household_id a = hid \<and> a_week_start a = week_start)
                       (assignments d)) > 0
          then (get_current_assignments e req hid d, d)
          else
            let chore_ids = map c_id (sort_key c_id
                              (filter (\<lambda>c. c_household_id c = hid) (chores d)));
                member_count = length (filter (\<lambda>m. m_household_id m = hid) (members d))
            in if chore_ids = [] \<or> member_count = 0
               then (Inr (Error_json ''Need at least 1 chore and 1 member'' 400), d)
               else
                 let order = pick_member_round_robin d hid week_start
                 in if order = [] then (Inr (Error_json ''No members'' 400), d)
                    else rotate_insert e req hid week_start order chore_ids d)"

section \<open>Completing an assignment: \<^verbatim>\<open>complete_assignment\<close>\<close>

text \<open>
  Lines 248 and 249: the form fields when there are any, the JSON body otherwise, and in
  them the value of \<^verbatim>\<open>proof_url\<close>, \<^verbatim>\<open>None\<close> when absent. Line 252 is the
  \<^verbatim>\<open>UPDATE\<close>, which binds \<^verbatim>\<open>aid\<close>; \<^verbatim>\<open>cur.rowcount\<close> is the number of rows with
  that id.
\<close>

definition supplied_proof :: "request \<Rightarrow> string option" where
  "supplied_proof req =
     (let data = (if form req \<noteq> [] then form req else json req)
      in map_of data ''proof_url'')"

definition complete_assignment ::
  "request \<Rightarrow> int \<Rightarrow> db \<Rightarrow> (error + response) \<times> db" where
  "complete_assignment req aid d =
     (let proof_url = supplied_proof req
      in if \<not> sqlite_int aid then (Inl OverflowError, d)
         else
           let rowcount = length (filter (\<lambda>a. a_id a = aid) (assignments d))
           in if rowcount = 0 then (Inr (Error_json ''not found'' 404), d)
              else (Inr (Completed_json aid ''done'' proof_url),
                    d\<lparr>assignments :=
                        map (\<lambda>a. if a_id a = aid
                                  then a\<lparr>a_status := ''done'', a_proof_url := proof_url\<rparr>
                                  else a) (assignments d)\<rparr>))"

section \<open>Creating households, members and chores\<close>

text \<open>\<^verbatim>\<open>MAX\<close> of a column: \<^verbatim>\<open>NULL\<close> over no row.\<close>

fun sql_max :: "int list \<Rightarrow> int option" where
  "sql_max [] = None"
| "sql_max (x # xs) = Some (fold max xs x)"

definition create_household :: "env \<Rightarrow> request \<Rightarrow> db \<Rightarrow> response \<times> db" where
  "create_household e req d =
     (case map_of (json req) ''name'' of
        None \<Rightarrow> (Error_json ''name is required'' 400, d)
      | Some name \<Rightarrow>
          if name = [] then (Error_json ''name is required'' 400, d)
          else
            let hid = lastrowid (seq_households d) (map h_id (households d))
            in (Household_json hid name,
                d\<lparr>households := households d @
                     [\<lparr>h_id = hid, h_name = name, h_created_at = now_iso e\<rparr>],
                  seq_households := hid\<rparr>))"

text \<open>
  Lines 149 and 150: \<^verbatim>\<open>COALESCE(MAX(join_order), 0)+1\<close> over the members of the
  household.
\<close>

definition next_join_order :: "db \<Rightarrow> int \<Rightarrow> int" where
  "next_join_order d hid =
     (case sql_max (map m_join_order (filter (\<lambda>m. m_household_id m = hid) (members d))) of
        None \<Rightarrow> 0
      | Some j \<Rightarrow> j) + 1"

text \<open>
  Lines 151 to 158: the \<^verbatim>\<open>INSERT\<close> with the join order read before, the commit and the
  answer. Between the \<^verbatim>\<open>SELECT\<close> of line 149 and this \<^verbatim>\<open>INSERT\<close> no transaction is
  open, so the store the row goes into need not be the store the join order was read
  from.
\<close>

definition add_member_insert ::
  "env \<Rightarrow> string \<Rightarrow> string option \<Rightarrow> int \<Rightarrow> int \<Rightarrow> db \<Rightarrow> (error + response) \<times> db" where
  "add_member_insert e name email hid join_order d =
     (let mid = lastrowid (seq_members d) (map m_id (members d))
      in (Inr (Member_json mid name email join_order),
          d\<lparr>members := members d @
               [\<lparr>m_id = mid, m_household_id = hid, m_name = name, m_email = email,
                 m_join_order = join_order, m_created_at = now_iso e\<rparr>],
            seq_members := mid\<rparr>))"

text \<open>
  One call of \<^verbatim>\<open>add_member\<close> with no other call in between: the name is checked, line
  149 binds \<^verbatim>\<open>hid\<close> and reads the join order, and the row is inserted into the same
  store.
\<close>

definition add_member :: "env \<Rightarrow> request \<Rightarrow> int \<Rightarrow> db \<Rightarrow> (error + response) \<times> db" where
  "add_member e req hid d =
     (case map_of (json req) ''name'' of
        None \<Rightarrow> (Inr (Error_json ''name is required'' 400), d)
      | Some name \<Rightarrow>
          if name = [] then (Inr (Error_json ''name is required'' 400), d)
          else
            let email = map_of (json req) ''email''
            in if \<not> sqlite_int hid then (Inl OverflowError, d)
               else
                 let join_order = next_join_order d hid
                 in add_member_insert e name email hid join_order d)"

text \<open>Line 170 binds \<^verbatim>\<open>hid\<close> in the \<^verbatim>\<open>INSERT\<close>.\<close>

definition add_chore :: "env \<Rightarrow> request \<Rightarrow> int \<Rightarrow> db \<Rightarrow> (error + response) \<times> db" where
  "add_chore e req hid d =
     (case map_of (json req) ''title'' of
        None \<Rightarrow> (Inr (Error_json ''title is required'' 400), d)
      | Some title \<Rightarrow>
          if title = [] then (Inr (Error_json ''title is required'' 400), d)
          else
            let cadence = (case map_of (json req) ''cadence'' of
                             None \<Rightarrow> ''weekly'' | Some c \<Rightarrow> c)
            in if \<not> sqlite_int hid then (Inl OverflowError, d)
               else
                 let cid = lastrowid (seq_chores d) (map c_id (chores d))
                 in (Inr (Chore_json cid title cadence),
                     d\<lparr>chores := chores d @
                          [\<lparr>c_id = cid, c_household_id = hid, c_title = title,
                            c_cadence = cadence, c_created_at = now_iso e\<rparr>],
                       seq_chores := cid\<rparr>))"

text \<open>
  The stores reached from the empty store of \<^verbatim>\<open>init_db\<close> when the calls of the five
  handlers that write run one after the other, each from its first statement to its last
  before the next begins. No handler deletes a row. Requests served at the same time
  reach more stores than these: the statements of two calls can alternate.
\<close>

inductive serial_reachable :: "db \<Rightarrow> bool" where
  r_init: "serial_reachable init_db"
| r_household: "serial_reachable d \<Longrightarrow> serial_reachable (snd (create_household e req d))"
| r_member: "serial_reachable d \<Longrightarrow> serial_reachable (snd (add_member e req hid d))"
| r_chore: "serial_reachable d \<Longrightarrow> serial_reachable (snd (add_chore e req hid d))"
| r_rotate: "serial_reachable d \<Longrightarrow> serial_reachable (snd (rotate e req hid d))"
| r_complete: "serial_reachable d \<Longrightarrow> serial_reachable (snd (complete_assignment req aid d))"

section \<open>A household of four with five chores\<close>

text \<open>
  The store used by the worked examples: household 1 with the members 1 to 4 (join orders
  1 to 4), the chores 1 to 5, and seven earlier assignments, three of member 1, one each
  of members 2 and 3, two of member 4.
\<close>

definition mk_member :: "int \<Rightarrow> int \<Rightarrow> string \<Rightarrow> int \<Rightarrow> member" where
  "mk_member i h n j =
     \<lparr>m_id = i, m_household_id = h, m_name = n, m_email = None, m_join_order = j,
      m_created_at = ''2024-05-20T08:00:00''\<rparr>"

definition mk_chore :: "int \<Rightarrow> int \<Rightarrow> string \<Rightarrow> chore" where
  "mk_chore i h t =
     \<lparr>c_id = i, c_household_id = h, c_title = t, c_cadence = ''weekly'',
      c_created_at = ''2024-05-20T08:05:00''\<rparr>"

definition mk_assignment :: "int \<Rightarrow> int \<Rightarrow> string \<Rightarrow> int \<Rightarrow> int \<Rightarrow> assignment" where
  "mk_assignment i h w c m =
     \<lparr>a_id = i, a_household_id = h, a_week_start = w, a_chore_id = c, a_member_id = m,
      a_status = ''assigned'', a_proof_url = None, a_created_at = ''2024-05-27T08:00:00''\<rparr>"

definition ex_db :: db where
  "ex_db =
     \<lparr>households = [\<lparr>h_id = 1, h_name = ''flat'', h_created_at = ''2024-05-20T07:55:00''\<rparr>],
      members = [mk_member 1 1 ''M1'' 1, mk_member 2 1 ''M2'' 2,
                 mk_member 3 1 ''M3'' 3, mk_member 4 1 ''M4'' 4],
      chores = [mk_chore 1 1 ''C1'', mk_chore 2 1 ''C2'', mk_chore 3 1 ''C3'',
                mk_chore 4 1 ''C4'', mk_chore 5 1 ''C5''],
      assignments =
        [mk_assignment 1 1 ''2024-05-27'' 1 1, mk_assignment 2 1 ''2024-05-27'' 2 1,
         mk_assignment 3 1 ''2024-05-27'' 3 1, mk_assignment 4 1 ''2024-05-27'' 4 2,
         mk_assignment 5 1 ''2024-05-27'' 5 3, mk_assignment 6 1 ''2024-06-03'' 1 4,
         mk_assignment 7 1 ''2024-06-03'' 2 4],
      seq_households = 1, seq_members = 4, seq_chores = 5, seq_assignments = 7\<rparr>"

text \<open>
  Wednesday 2024-06-12 is day 739049; its Monday, 2024-06-10, is day 739047. The rendering
  is given for the two Mondays the examples meet.
\<close>

definition ex_isoformat :: "date \<Rightarrow> string" where
  "ex_isoformat n =
     (if n = 739047 then ''2024-06-10'' else if n = 739040 then ''2024-06-03'' else [])"

definition ex_env :: env where
  "ex_env = \<lparr>today = 739049, utcnow = ''2024-06-12T09:30:00'', isoformat = ex_isoformat\<rparr>"

text \<open>A request whose JSON body names the week, with no query string and no form.\<close>

definition ex_req :: "string \<Rightarrow> request" where
  "ex_req w = \<lparr>json = [(''week_start'', w)], args = [], form = []\<rparr>"

text \<open>A request with no body, no query string and no form.\<close>

definition ex_req_empty :: request where
  "ex_req_empty = \<lparr>json = [], args = [], form = []\<rparr>"

text \<open>A completion request whose JSON body carries a proof reference.\<close>

definition ex_req_proof :: request where
  "ex_req_proof =
     \<lparr>json = [(''proof_url'', ''https://img.example/sink.jpg'')], args = [], form = []\<rparr>"

text \<open>A request to add a member, with the name in its JSON body.\<close>

definition ex_req_name :: "string \<Rightarrow> request" where
  "ex_req_name n = \<lparr>json = [(''name'', n)], args = [], form = []\<rparr>"

text \<open>The key the ranker sorts by, for one member row.\<close>

definition rank_key :: "db \<Rightarrow> int \<Rightarrow> string \<Rightarrow> member \<Rightarrow> int \<times> int \<times> int" where
  "rank_key d hid week_start m =
     (hist_get (hist_rows d hid week_start) (m_id m), m_join_order m, m_id m)"

text \<open>
  The join orders of every household, read in the order the members were added, are
  1, 2, 3 and so on without a gap.
\<close>

definition join_orders_consecutive :: "db \<Rightarrow> bool" where
  "join_orders_consecutive d =
     (\<forall>hid. map m_join_order (filter (\<lambda>m. m_household_id m = hid) (members d))
              = [1..int (length (filter (\<lambda>m. m_household_id m = hid) (members d)))])"

section \<open>Lemmas on sorting and on the dictionary of counts\<close>

lemmas ex_defs = ex_db_def mk_member_def mk_chore_def mk_assignment_def

lemma map_insort_key: "map f (insort_key f x xs) = insort (f x) (map f xs)"
  by (induction xs) auto

lemma map_sort_key: "map f (sort_key f xs) = sort (map f xs)"
  by (induction xs) (simp_all add: map_insort_key)

lemma sorted_wrt_sort_key: "sorted_wrt (\<lambda>a b. f a \<le> f b) (sort_key f xs)"
  using sorted_sort_key [of f xs] by (simp add: sorted_map)

lemma map_of_graph:
  "map_of (map (\<lambda>k. (k, f k)) ks) k = (if k \<in> set ks then Some (f k) else None)"
  by (induction ks) auto

text \<open>What \<^verbatim>\<open>hist.get(m, 0)\<close> is: the number of the household's rows of member \<open>m\<close> whose
  week is strictly before the target week.\<close>

lemma hist_get_count:
  "hist_get (hist_rows d hid week_start) m =
     int (length (filter (\<lambda>a. a_household_id a = hid \<and> a_member_id a = m
                              \<and> a_week_start a < week_start) (assignments d)))"
proof -
  let ?rows = "past_assignments d hid week_start"
  have cnt: "length (filter (\<lambda>a. a_member_id a = m) ?rows) =
      length (filter (\<lambda>a. a_household_id a = hid \<and> a_member_id a = m
                              \<and> a_week_start a < week_start) (assignments d))"
    unfolding past_assignments_def filter_filter
    by (rule arg_cong [where f = length], rule filter_cong) auto
  show ?thesis
  proof (cases "m \<in> set (map a_member_id ?rows)")
    case True
    then show ?thesis
      unfolding hist_get_def hist_rows_def Let_def map_of_graph using cnt by simp
  next
    case False
    then have "filter (\<lambda>a. a_member_id a = m) ?rows = []"
      by (auto simp: filter_empty_conv)
    with False cnt show ?thesis
      unfolding hist_get_def hist_rows_def Let_def map_of_graph by simp
  qed
qed

lemma pick_as_sort_key:
  "pick_member_round_robin d hid week_start =
     map m_id (sort_key (rank_key d hid week_start) (household_members d hid))"
proof -
  have "map (\<lambda>(_, _, mid). mid) (scored d hid week_start) =
        map (\<lambda>(_, _, mid). mid) (map (rank_key d hid week_start)
           (sort_key (rank_key d hid week_start) (household_members d hid)))"
    unfolding scored_def Let_def map_sort_key rank_key_def ..
  also have "\<dots> = map m_id (sort_key (rank_key d hid week_start) (household_members d hid))"
    by (simp add: rank_key_def)
  finally show ?thesis
    by (simp add: pick_member_round_robin_def)
qed

lemma mset_household_members:
  "mset (household_members d hid) = mset (filter (\<lambda>m. m_household_id m = hid) (members d))"
  by (simp add: household_members_def)

lemma mset_pick:
  "mset (pick_member_round_robin d hid week_start) =
     mset (map m_id (filter (\<lambda>m. m_household_id m = hid) (members d)))"
proof -
  have "mset (pick_member_round_robin d hid week_start) =
        image_mset m_id (mset (sort_key (rank_key d hid week_start) (household_members d hid)))"
    by (simp add: pick_as_sort_key)
  also have "\<dots> = image_mset m_id (mset (filter (\<lambda>m. m_household_id m = hid) (members d)))"
    by (simp add: mset_household_members)
  finally show ?thesis by simp
qed

section \<open>The fairness order\<close>

text \<open>
  Claim C3. The ranker returns the ids of the household's members, each once, arranged so
  that along the list the triple (count of earlier assignments, join order, id) never
  decreases in the lexicographic order: fewer earlier assignments first, then the smaller
  join order, then the smaller id. In the example store the counts of the members 1 to 4
  are 3, 1, 1, 2, their join orders 1, 2, 3, 4, and the order returned is 2, 3, 4, 1.
\<close>

theorem ranker_orders_by_count_join_id:
  "(\<exists>ms. mset ms = mset (filter (\<lambda>m. m_household_id m = hid) (members d))
        \<and> pick_member_round_robin d hid week_start = map m_id ms
        \<and> sorted_wrt (\<lambda>m m'.
              hist_get (hist_rows d hid week_start) (m_id m)
                < hist_get (hist_rows d hid week_start) (m_id m')
            \<or> (hist_get (hist_rows d hid week_start) (m_id m)
                  = hist_get (hist_rows d hid week_start) (m_id m')
               \<and> (m_join_order m < m_join_order m'
                  \<or> (m_join_order m = m_join_order m' \<and> m_id m \<le> m_id m')))) ms)
   \<and> map (\<lambda>m. hist_get (hist_rows ex_db 1 ''2024-06-10'') (m_id m)) (members ex_db)
       = [3, 1, 1, 2]
   \<and> map m_join_order (members ex_db) = [1, 2, 3, 4]
   \<and> map m_id (members ex_db) = [1, 2, 3, 4]
   \<and> pick_member_round_robin ex_db 1 ''2024-06-10'' = [2, 3, 4, 1]"
proof (intro conjI)
  let ?ms = "sort_key (rank_key d hid week_start) (household_members d hid)"
  have "mset ?ms = mset (filter (\<lambda>m. m_household_id m = hid) (members d))"
    by (simp add: mset_household_members)
  moreover have "pick_member_round_robin d hid week_start = map m_id ?ms"
    by (rule pick_as_sort_key)
  moreover have "sorted_wrt (\<lambda>m m'.
              hist_get (hist_rows d hid week_start) (m_id m)
                < hist_get (hist_rows d hid week_start) (m_id m')
            \<or> (hist_get (hist_rows d hid week_start) (m_id m)
                  = hist_get (hist_rows d hid week_start) (m_id m')
               \<and> (m_join_order m < m_join_order m'
                  \<or> (m_join_order m = m_join_order m' \<and> m_id m \<le> m_id m')))) ?ms"
    by (rule sorted_wrt_mono_rel
          [OF _ sorted_wrt_sort_key [of "rank_key d hid week_start" "household_members d hid"]])
       (auto simp: rank_key_def)
  ultimately show "\<exists>ms. mset ms = mset (filter (\<lambda>m. m_household_id m = hid) (members d))
        \<and> pick_member_round_robin d hid week_start = map m_id ms
        \<and> sorted_wrt (\<lambda>m m'.
              hist_get (hist_rows d hid week_start) (m_id m)
                < hist_get (hist_rows d hid week_start) (m_id m')
            \<or> (hist_get (hist_rows d hid week_start) (m_id m)
                  = hist_get (hist_rows d hid week_start) (m_id m')
               \<and> (m_join_order m < m_join_order m'
                  \<or> (m_join_order m = m_join_order m' \<and> m_id m \<le> m_id m')))) ms"
    by blast
next
  show "map (\<lambda>m. hist_get (hist_rows ex_db 1 ''2024-06-10'') (m_id m)) (members ex_db)
          = [3, 1, 1, 2]"
    by (simp add: hist_get_count) (simp add: ex_defs)
next
  show "map m_join_order (members ex_db) = [1, 2, 3, 4]" by (simp add: ex_defs)
next
  show "map m_id (members ex_db) = [1, 2, 3, 4]" by (simp add: ex_defs)
next
  show "pick_member_round_robin ex_db 1 ''2024-06-10'' = [2, 3, 4, 1]"
    by (simp add: pick_member_round_robin_def scored_def household_members_def hist_get_count)
       (simp add: ex_defs)
qed

text \<open>Claim C10. Whatever the counts, the ranker's output is a permutation of the ids of
  the household's members: the same multiset, hence the same length and the same set, and
  no id twice when the member ids are distinct (they are the table's primary key).\<close>

theorem ranker_is_permutation:
  "mset (pick_member_round_robin d hid week_start) =
     mset (map m_id (filter (\<lambda>m. m_household_id m = hid) (members d)))
   \<and> length (pick_member_round_robin d hid week_start) =
       length (filter (\<lambda>m. m_household_id m = hid) (members d))
   \<and> set (pick_member_round_robin d hid week_start) =
       m_id ` {m \<in> set (members d). m_household_id m = hid}
   \<and> (distinct (map m_id (members d)) \<longrightarrow> distinct (pick_member_round_robin d hid week_start))"
proof -
  let ?out = "pick_member_round_robin d hid week_start"
  let ?ids = "map m_id (filter (\<lambda>m. m_household_id m = hid) (members d))"
  have m: "mset ?out = mset ?ids" by (rule mset_pick)
  have l: "length ?out = length (filter (\<lambda>m. m_household_id m = hid) (members d))"
    using mset_eq_length [OF m] by simp
  have s: "set ?out = m_id ` {m \<in> set (members d). m_household_id m = hid}"
    using mset_eq_setD [OF m] by auto
  have dst: "distinct ?out" if "distinct (map m_id (members d))"
  proof -
    from that have "distinct ?ids" by (simp add: distinct_map_filter)
    with m show ?thesis by (metis mset_eq_imp_distinct_iff)
  qed
  from m l s dst show ?thesis by blast
qed

theorem ranker_orders_witness:
  "\<exists>ms. mset ms = mset (members ex_db) \<and> map m_id ms = [2, 3, 4, 1]
     \<and> sorted_wrt (\<lambda>m m'.
              hist_get (hist_rows ex_db 1 ''2024-06-10'') (m_id m)
                < hist_get (hist_rows ex_db 1 ''2024-06-10'') (m_id m')
            \<or> (hist_get (hist_rows ex_db 1 ''2024-06-10'') (m_id m)
                  = hist_get (hist_rows ex_db 1 ''2024-06-10'') (m_id m')
               \<and> (m_join_order m < m_join_order m'
                  \<or> (m_join_order m = m_join_order m' \<and> m_id m \<le> m_id m')))) ms"
proof -
  have f: "filter (\<lambda>m. m_household_id m = 1) (members ex_db) = members ex_db"
    by (simp add: ex_defs)
  show ?thesis
    using ranker_orders_by_count_join_id [of 1 ex_db "''2024-06-10''"]
    unfolding f by (elim conjE exE) (intro exI conjI; simp)
qed

theorem ranker_is_permutation_witness:
  "distinct (map m_id (members ex_db))
   \<and> mset (pick_member_round_robin ex_db 1 ''2024-06-10'') = mset [1, 2, 3, 4]
   \<and> length (pick_member_round_robin ex_db 1 ''2024-06-10'') = 4
   \<and> distinct (pick_member_round_robin ex_db 1 ''2024-06-10'')"
  using ranker_is_permutation [of ex_db 1 "''2024-06-10''"]
  by (simp add: ex_defs)

section \<open>Which rows the counts see\<close>

lemma past_assignments_cong:
  assumes "filter (\<lambda>a. a_week_start a < week_start) (assignments d') =
           filter (\<lambda>a. a_week_start a < week_start) (assignments d)"
  shows "past_assignments d' hid week_start = past_assignments d hid week_start"
proof -
  have "past_assignments x hid week_start =
        filter (\<lambda>a. a_household_id a = hid)
          (filter (\<lambda>a. a_week_start a < week_start) (assignments x))" for x
    unfolding past_assignments_def filter_filter
    by (rule filter_cong) auto
  then show ?thesis by (simp only: assms)
qed

lemma pick_cong:
  assumes "filter (\<lambda>a. a_week_start a < week_start) (assignments d') =
           filter (\<lambda>a. a_week_start a < week_start) (assignments d)"
    and "members d' = members d"
  shows "pick_member_round_robin d' hid week_start = pick_member_round_robin d hid week_start"
  using past_assignments_cong [OF assms(1), of hid] assms(2)
  by (simp add: pick_member_round_robin_def scored_def hist_rows_def household_members_def)

text \<open>
  Claim C5. The count the ranker scores a member with is the number of the household's
  assignments of that member whose week is strictly before the target week. A member none
  of whose assignments is strictly earlier has count 0, and a row whose week is the target
  week (or later) changes neither a count nor the order returned.
\<close>

theorem hist_counts_only_earlier_weeks:
  "scored d hid week_start =
     sort (map (\<lambda>m. (int (length (filter (\<lambda>a. a_household_id a = hid \<and> a_member_id a = m_id m
                                             \<and> a_week_start a < week_start) (assignments d))),
                      m_join_order m, m_id m))
             (household_members d hid))
   \<and> hist_get (hist_rows d hid week_start) m =
       int (length (filter (\<lambda>a. a_household_id a = hid \<and> a_member_id a = m
                                \<and> a_week_start a < week_start) (assignments d)))
   \<and> ((\<forall>a \<in> set (assignments d). a_household_id a = hid \<and> a_member_id a = m
          \<longrightarrow> \<not> a_week_start a < week_start)
        \<longrightarrow> hist_get (hist_rows d hid week_start) m = 0)
   \<and> (\<not> a_week_start a < week_start \<longrightarrow>
        hist_get (hist_rows (d\<lparr>assignments := assignments d @ [a]\<rparr>) hid week_start) m
          = hist_get (hist_rows d hid week_start) m
        \<and> pick_member_round_robin (d\<lparr>assignments := assignments d @ [a]\<rparr>) hid week_start
          = pick_member_round_robin d hid week_start)"
proof (intro conjI impI)
  show "scored d hid week_start =
     sort (map (\<lambda>m. (int (length (filter (\<lambda>a. a_household_id a = hid \<and> a_member_id a = m_id m
                                             \<and> a_week_start a < week_start) (assignments d))),
                      m_join_order m, m_id m))
             (household_members d hid))"
    unfolding scored_def Let_def hist_get_count ..
next
  show "hist_get (hist_rows d hid week_start) m =
       int (length (filter (\<lambda>a. a_household_id a = hid \<and> a_member_id a = m
                                \<and> a_week_start a < week_start) (assignments d)))"
    by (rule hist_get_count)
next
  assume "\<forall>a \<in> set (assignments d). a_household_id a = hid \<and> a_member_id a = m
          \<longrightarrow> \<not> a_week_start a < week_start"
  then have "filter (\<lambda>a. a_household_id a = hid \<and> a_member_id a = m
                                \<and> a_week_start a < week_start) (assignments d) = []"
    by (auto simp: filter_empty_conv)
  then show "hist_get (hist_rows d hid week_start) m = 0"
    by (simp add: hist_get_count)
next
  assume "\<not> a_week_start a < week_start"
  then show "hist_get (hist_rows (d\<lparr>assignments := assignments d @ [a]\<rparr>) hid week_start) m
          = hist_get (hist_rows d hid week_start) m"
    by (simp add: hist_get_count)
next
  assume "\<not> a_week_start a < week_start"
  then show "pick_member_round_robin (d\<lparr>assignments := assignments d @ [a]\<rparr>) hid week_start
          = pick_member_round_robin d hid week_start"
    by (intro pick_cong) simp_all
qed

theorem hist_counts_only_earlier_weeks_witness:
  "(\<exists>a \<in> set (assignments ex_db). a_household_id a = 1 \<and> a_member_id a = 4
       \<and> a_week_start a = ''2024-06-03'')
   \<and> filter (\<lambda>a. a_household_id a = 1 \<and> a_member_id a = 4
                  \<and> a_week_start a < ''2024-06-03'') (assignments ex_db) = []
   \<and> \<not> a_week_start (mk_assignment 8 1 ''2024-06-03'' 3 4) < ''2024-06-03''
   \<and> hist_get (hist_rows ex_db 1 ''2024-06-03'') 4 = 0
   \<and> hist_get (hist_rows
        (ex_db\<lparr>assignments := assignments ex_db @ [mk_assignment 8 1 ''2024-06-03'' 3 4]\<rparr>)
        1 ''2024-06-03'') 4 = 0
   \<and> hist_get (hist_rows ex_db 1 ''2024-06-10'') 4 = 2"
  using hist_counts_only_earlier_weeks
          [of ex_db 1 "''2024-06-03''" 4 "mk_assignment 8 1 ''2024-06-03'' 3 4"]
    hist_counts_only_earlier_weeks
          [of ex_db 1 "''2024-06-10''" 4 "mk_assignment 8 1 ''2024-06-03'' 3 4"]
  by (simp add: ex_defs)

section \<open>Row ids and the insert loop\<close>

lemma fold_max_ge: "s \<le> fold max xs (s::int)"
  by (induction xs arbitrary: s) (auto intro: order_trans [OF max.cobounded2])

lemma fold_max_upper: "x \<in> set xs \<Longrightarrow> x \<le> fold max xs (s::int)"
proof (induction xs arbitrary: s)
  case Nil
  then show ?case by simp
next
  case (Cons y ys)
  show ?case
  proof (cases "x = y")
    case True
    have "y \<le> max y s" by simp
    also have "\<dots> \<le> fold max ys (max y s)" by (rule fold_max_ge)
    finally show ?thesis using True by simp
  next
    case False
    with Cons show ?thesis by simp
  qed
qed

lemma fold_max_absorb: "\<forall>x \<in> set xs. x \<le> s \<Longrightarrow> fold max xs (s::int) = s"
  by (induction xs arbitrary: s) (auto simp: max_def)

lemma lastrowid_fresh: "x \<in> set ids \<Longrightarrow> x < lastrowid seq ids"
  using fold_max_upper [of x ids seq] by (simp add: lastrowid_def)

lemma lastrowid_next:
  "lastrowid (lastrowid seq ids) (ids @ [lastrowid seq ids]) = lastrowid seq ids + 1"
proof -
  have "x \<le> lastrowid seq ids" if "x \<in> set ids" for x
    using lastrowid_fresh [OF that, of seq] by simp
  then have "\<forall>x \<in> set (ids @ [lastrowid seq ids]). x \<le> lastrowid seq ids"
    by simp
  then have "fold max (ids @ [lastrowid seq ids]) (lastrowid seq ids) = lastrowid seq ids"
    by (rule fold_max_absorb)
  then show ?thesis by (simp add: lastrowid_def)
qed

lemma insert_assignment_free:
  assumes "\<not> week_key_taken d hid w c"
  shows "insert_assignment e hid w c m d =
     Inr (lastrowid (seq_assignments d) (map a_id (assignments d)),
          d\<lparr>assignments := assignments d @
               [\<lparr>a_id = lastrowid (seq_assignments d) (map a_id (assignments d)),
                 a_household_id = hid, a_week_start = w, a_chore_id = c, a_member_id = m,
                 a_status = ''assigned'', a_proof_url = None, a_created_at = now_iso e\<rparr>],
             seq_assignments := lastrowid (seq_assignments d) (map a_id (assignments d))\<rparr>)"
  using assms by (simp add: insert_assignment_def Let_def)

lemma insert_assignment_taken:
  "week_key_taken d hid w c \<Longrightarrow> insert_assignment e hid w c m d = Inl IntegrityError"
  by (simp add: insert_assignment_def)

lemma assign_loop_rows:
  assumes "order \<noteq> []" "distinct cs" "\<forall>c \<in> set cs. \<not> week_key_taken d hid w c"
  shows "\<exists>created' d'.
     assign_loop e hid w order cs i created d = Inr (created', d')
     \<and> assignments d' = assignments d @
         map (\<lambda>(k, c).
               \<lparr>a_id = lastrowid (seq_assignments d) (map a_id (assignments d)) + int k - int i,
                a_household_id = hid, a_week_start = w, a_chore_id = c,
                a_member_id = order ! (k mod length order),
                a_status = ''assigned'', a_proof_url = None, a_created_at = now_iso e\<rparr>)
           (enumerate i cs)
     \<and> members d' = members d \<and> chores d' = chores d \<and> households d' = households d"
  using assms(2,3)
proof (induction cs arbitrary: i created d)
  case Nil
  then show ?case by simp
next
  case (Cons c rest)
  let ?rid = "lastrowid (seq_assignments d) (map a_id (assignments d))"
  let ?row = "\<lparr>a_id = ?rid, a_household_id = hid, a_week_start = w, a_chore_id = c,
                a_member_id = order ! (i mod length order),
                a_status = ''assigned'', a_proof_url = None, a_created_at = now_iso e\<rparr>"
  let ?d1 = "d\<lparr>assignments := assignments d @ [?row], seq_assignments := ?rid\<rparr>"
  from Cons.prems have free: "\<not> week_key_taken d hid w c" by simp
  have ins: "insert_assignment e hid w c (order ! (i mod length order)) d = Inr (?rid, ?d1)"
    by (rule insert_assignment_free [OF free])
  have rest_free: "\<forall>c' \<in> set rest. \<not> week_key_taken ?d1 hid w c'"
    using Cons.prems by (auto simp: week_key_taken_def)
  from Cons.prems have "distinct rest" by simp
  from Cons.IH [OF this rest_free, of "Suc i" "created @ [?rid]"]
  obtain created' d' where
    loop: "assign_loop e hid w order rest (Suc i) (created @ [?rid]) ?d1 = Inr (created', d')"
    and rows: "assignments d' = assignments ?d1 @
         map (\<lambda>(k, c).
               \<lparr>a_id = lastrowid (seq_assignments ?d1) (map a_id (assignments ?d1)) + int k - int (Suc i),
                a_household_id = hid, a_week_start = w, a_chore_id = c,
                a_member_id = order ! (k mod length order),
                a_status = ''assigned'', a_proof_url = None, a_created_at = now_iso e\<rparr>)
           (enumerate (Suc i) rest)"
    and same: "members d' = members ?d1" "chores d' = chores ?d1" "households d' = households ?d1"
    by blast
  have nxt: "lastrowid (seq_assignments ?d1) (map a_id (assignments ?d1)) = ?rid + 1"
    using lastrowid_next [of "seq_assignments d" "map a_id (assignments d)"] by simp
  have "assign_loop e hid w order (c # rest) i created d = Inr (created', d')"
    using assms(1) ins loop by simp
  moreover have "assignments d' = assignments d @
         map (\<lambda>(k, c).
               \<lparr>a_id = ?rid + int k - int i,
                a_household_id = hid, a_week_start = w, a_chore_id = c,
                a_member_id = order ! (k mod length order),
                a_status = ''assigned'', a_proof_url = None, a_created_at = now_iso e\<rparr>)
           (enumerate i (c # rest))"
    unfolding rows nxt by (simp add: case_prod_beta)
  ultimately show ?case using same by simp
qed

lemma assign_loop_conflict:
  assumes "order \<noteq> []" "\<exists>c \<in> set cs. week_key_taken d hid w c"
  shows "assign_loop e hid w order cs i created d = Inl IntegrityError"
  using assms(2)
proof (induction cs arbitrary: i created d)
  case Nil
  then show ?case by simp
next
  case (Cons c rest)
  show ?case
  proof (cases "week_key_taken d hid w c")
    case True
    then show ?thesis
      using assms(1) by (simp add: insert_assignment_taken)
  next
    case False
    let ?rid = "lastrowid (seq_assignments d) (map a_id (assignments d))"
    let ?row = "\<lparr>a_id = ?rid, a_household_id = hid, a_week_start = w, a_chore_id = c,
                a_member_id = order ! (i mod length order),
                a_status = ''assigned'', a_proof_url = None, a_created_at = now_iso e\<rparr>"
    let ?d1 = "d\<lparr>assignments := assignments d @ [?row], seq_assignments := ?rid\<rparr>"
    from False Cons.prems obtain c' where "c' \<in> set rest" "week_key_taken d hid w c'"
      by auto
    then have "\<exists>c' \<in> set rest. week_key_taken ?d1 hid w c'"
      by (auto simp: week_key_taken_def)
    from Cons.IH [OF this]
    have "assign_loop e hid w order rest (Suc i) (created @ [?rid]) ?d1 = Inl IntegrityError" .
    then show ?thesis
      using assms(1) insert_assignment_free [OF False, of e "order ! (i mod length order)"]
      by simp
  qed
qed

section \<open>Generating a fresh week\<close>

lemmas rotate_defs = rotate_def requested_week_def rotate_insert_def insert_assignment_def
  week_key_taken_def lastrowid_def get_current_assignments_def week_rows_def this_week_def
  monday_of_week_def date_sub_days_def weekday_def iso_date_def now_iso_def
  pick_member_round_robin_def scored_def household_members_def hist_get_count sqlite_int_def

lemmas ex_all = ex_req_def ex_req_empty_def ex_env_def ex_isoformat_def ex_defs

lemma no_week_rows_free:
  assumes "filter (\<lambda>a. a_household_id a = hid \<and> a_week_start a = w) (assignments d) = []"
  shows "\<not> week_key_taken d hid w c"
  using assms by (auto simp: week_key_taken_def filter_empty_conv list_ex_iff)

lemma chore_ids_sorted_distinct:
  "sorted (map c_id (sort_key c_id cs))"
  "mset (map c_id (sort_key c_id cs)) = mset (map c_id cs)"
  "distinct (map c_id cs) \<Longrightarrow> distinct (map c_id (sort_key c_id cs))"
  by (simp_all add: map_sort_key)

lemma pick_empty_iff:
  "pick_member_round_robin d hid w = [] \<longleftrightarrow> filter (\<lambda>m. m_household_id m = hid) (members d) = []"
proof -
  have "length (pick_member_round_robin d hid w) = length (filter (\<lambda>m. m_household_id m = hid) (members d))"
    using mset_eq_length [OF mset_pick [of d hid w]] by simp
  then show ?thesis by (metis length_0_conv)
qed

lemma rotate_fresh_week:
  assumes rw: "requested_week e req = Inr w"
    and rng: "sqlite_int hid"
    and none: "filter (\<lambda>a. a_household_id a = hid \<and> a_week_start a = w) (assignments d) = []"
    and ch: "filter (\<lambda>c. c_household_id c = hid) (chores d) \<noteq> []"
    and ms: "filter (\<lambda>m. m_household_id m = hid) (members d) \<noteq> []"
  shows "rotate e req hid d =
     rotate_insert e req hid w (pick_member_round_robin d hid w)
       (map c_id (sort_key c_id (filter (\<lambda>c. c_household_id c = hid) (chores d)))) d"
proof -
  have o: "pick_member_round_robin d hid w \<noteq> []"
    using ms by (simp add: pick_empty_iff)
  have c: "map c_id (sort_key c_id (filter (\<lambda>c. c_household_id c = hid) (chores d))) \<noteq> []"
    using ch by (metis length_0_conv length_map length_sort)
  show ?thesis
    unfolding rotate_def rw using rng none ms o c by (simp add: Let_def)
qed

lemma rotate_fresh_rows:
  assumes rw: "requested_week e req = Inr w"
    and rng: "sqlite_int hid"
    and none: "filter (\<lambda>a. a_household_id a = hid \<and> a_week_start a = w) (assignments d) = []"
    and pk: "distinct (map c_id (chores d))"
    and ch: "filter (\<lambda>c. c_household_id c = hid) (chores d) \<noteq> []"
    and ms: "filter (\<lambda>m. m_household_id m = hid) (members d) \<noteq> []"
  shows "\<exists>d'. rotate e req hid d = (get_current_assignments e req hid d', d')
     \<and> assignments d' = assignments d @
         map (\<lambda>(i, c).
               \<lparr>a_id = lastrowid (seq_assignments d) (map a_id (assignments d)) + int i,
                a_household_id = hid, a_week_start = w, a_chore_id = c,
                a_member_id = pick_member_round_robin d hid w
                                ! (i mod length (pick_member_round_robin d hid w)),
                a_status = ''assigned'', a_proof_url = None, a_created_at = now_iso e\<rparr>)
           (enumerate 0 (map c_id (sort_key c_id
              (filter (\<lambda>c. c_household_id c = hid) (chores d)))))
     \<and> members d' = members d \<and> chores d' = chores d \<and> households d' = households d"
proof -
  let ?chs = "map c_id (sort_key c_id (filter (\<lambda>c. c_household_id c = hid) (chores d)))"
  let ?order = "pick_member_round_robin d hid w"
  have dc: "distinct ?chs"
    using pk by (intro chore_ids_sorted_distinct) (simp add: distinct_map_filter)
  have o: "?order \<noteq> []" using ms by (simp add: pick_empty_iff)
  have free: "\<forall>c \<in> set ?chs. \<not> week_key_taken d hid w c"
    using no_week_rows_free [OF none] by simp
  from assign_loop_rows [OF o dc free, of e 0 "[]"]
  obtain created' d' where
    loop: "assign_loop e hid w ?order ?chs 0 [] d = Inr (created', d')"
    and rows: "assignments d' = assignments d @
         map (\<lambda>(k, c).
               \<lparr>a_id = lastrowid (seq_assignments d) (map a_id (assignments d)) + int k - int 0,
                a_household_id = hid, a_week_start = w, a_chore_id = c,
                a_member_id = ?order ! (k mod length ?order),
                a_status = ''assigned'', a_proof_url = None, a_created_at = now_iso e\<rparr>)
           (enumerate 0 ?chs)"
    and same: "members d' = members d" "chores d' = chores d" "households d' = households d"
    by blast
  have r: "rotate e req hid d = (get_current_assignments e req hid d', d')"
    unfolding rotate_fresh_week [OF rw rng none ch ms] rotate_insert_def
    using loop by simp
  from r rows same show ?thesis by simp
qed

text \<open>
  Claim C4. For a week that has no row yet, in a household (its id one that SQLite holds,
  as every stored id is) with at least one chore and one member, \<^verbatim>\<open>rotate\<close> takes the household's chore ids in ascending order (the order of
  creation) and appends one row per chore, the chore at position \<open>i\<close> (from 0) going to
  the member at position \<open>i mod length order\<close> of the fair order. In the example store the
  fair order is 2, 3, 4, 1 and the chores 1 to 5 go to the members 2, 3, 4, 1, 2.
\<close>

theorem rotate_assigns_cyclically:
  assumes rw: "requested_week e req = Inr w"
    and rng: "sqlite_int hid"
    and none: "filter (\<lambda>a. a_household_id a = hid \<and> a_week_start a = w) (assignments d) = []"
    and pk: "distinct (map c_id (chores d))"
    and ch: "filter (\<lambda>c. c_household_id c = hid) (chores d) \<noteq> []"
    and ms: "filter (\<lambda>m. m_household_id m = hid) (members d) \<noteq> []"
    and chs: "chs = map c_id (sort_key c_id (filter (\<lambda>c. c_household_id c = hid) (chores d)))"
    and ord: "order = pick_member_round_robin d hid w"
  shows "sorted chs \<and> distinct chs
     \<and> set chs = c_id ` {c \<in> set (chores d). c_household_id c = hid}
     \<and> order \<noteq> []
     \<and> assignments (snd (rotate e req hid d)) = assignments d @
         map (\<lambda>(i, c).
               \<lparr>a_id = lastrowid (seq_assignments d) (map a_id (assignments d)) + int i,
                a_household_id = hid, a_week_start = w, a_chore_id = c,
                a_member_id = order ! (i mod length order),
                a_status = ''assigned'', a_proof_url = None, a_created_at = now_iso e\<rparr>)
           (enumerate 0 chs)
     \<and> fst (rotate e req hid d) = get_current_assignments e req hid (snd (rotate e req hid d))
     \<and> map (\<lambda>a. (a_chore_id a, a_member_id a))
          (drop 7 (assignments (snd (rotate ex_env (ex_req ''2024-06-10'') 1 ex_db))))
        = [(1, 2), (2, 3), (3, 4), (4, 1), (5, 2)]"
proof -
  have s: "sorted chs" unfolding chs by (rule chore_ids_sorted_distinct)
  have dc: "distinct chs"
    unfolding chs using pk by (intro chore_ids_sorted_distinct) (simp add: distinct_map_filter)
  have st: "set chs = c_id ` {c \<in> set (chores d). c_household_id c = hid}"
    unfolding chs by auto
  have o: "order \<noteq> []" unfolding ord using ms by (simp add: pick_empty_iff)
  from rotate_fresh_rows [OF rw rng none pk ch ms]
  obtain d' where r: "rotate e req hid d = (get_current_assignments e req hid d', d')"
    and rows: "assignments d' = assignments d @
         map (\<lambda>(i, c).
               \<lparr>a_id = lastrowid (seq_assignments d) (map a_id (assignments d)) + int i,
                a_household_id = hid, a_week_start = w, a_chore_id = c,
                a_member_id = order ! (i mod length order),
                a_status = ''assigned'', a_proof_url = None, a_created_at = now_iso e\<rparr>)
           (enumerate 0 chs)"
    unfolding chs ord by blast
  have ex: "map (\<lambda>a. (a_chore_id a, a_member_id a))
          (drop 7 (assignments (snd (rotate ex_env (ex_req ''2024-06-10'') 1 ex_db))))
        = [(1, 2), (2, 3), (3, 4), (4, 1), (5, 2)]"
    by (simp add: rotate_defs ex_all)
  show ?thesis
    using s dc st o ex unfolding r using rows by simp
qed

theorem rotate_assigns_cyclically_witness:
  "requested_week ex_env (ex_req ''2024-06-10'') = Inr ''2024-06-10''
   \<and> sqlite_int 1
   \<and> filter (\<lambda>a. a_household_id a = 1 \<and> a_week_start a = ''2024-06-10'') (assignments ex_db) = []
   \<and> distinct (map c_id (chores ex_db))
   \<and> map c_id (sort_key c_id (filter (\<lambda>c. c_household_id c = 1) (chores ex_db))) = [1, 2, 3, 4, 5]
   \<and> pick_member_round_robin ex_db 1 ''2024-06-10'' = [2, 3, 4, 1]
   \<and> map (\<lambda>a. (a_id a, a_chore_id a, a_member_id a))
        (drop 7 (assignments (snd (rotate ex_env (ex_req ''2024-06-10'') 1 ex_db))))
      = [(8, 1, 2), (9, 2, 3), (10, 3, 4), (11, 4, 1), (12, 5, 2)]"
proof -
  have rw: "requested_week ex_env (ex_req ''2024-06-10'') = Inr ''2024-06-10''"
    by (simp add: requested_week_def ex_all)
  have none: "filter (\<lambda>a. a_household_id a = 1 \<and> a_week_start a = ''2024-06-10'')
                (assignments ex_db) = []"
    by (simp add: ex_all)
  have rng: "sqlite_int 1" by (simp add: sqlite_int_def)
  have pk: "distinct (map c_id (chores ex_db))" by (simp add: ex_all)
  have ch: "filter (\<lambda>c. c_household_id c = 1) (chores ex_db) \<noteq> []" by (simp add: ex_all)
  have ms: "filter (\<lambda>m. m_household_id m = 1) (members ex_db) \<noteq> []" by (simp add: ex_all)
  have chs: "map c_id (sort_key c_id (filter (\<lambda>c. c_household_id c = 1) (chores ex_db)))
      = [1, 2, 3, 4, 5]" by (simp add: ex_all)
  have ord: "pick_member_round_robin ex_db 1 ''2024-06-10'' = [2, 3, 4, 1]"
    by (simp add: pick_member_round_robin_def scored_def household_members_def hist_get_count)
       (simp add: ex_defs)
  have l: "length (assignments ex_db) = 7" "seq_assignments ex_db = 7"
      "map a_id (assignments ex_db) = [1, 2, 3, 4, 5, 6, 7]"
    by (simp_all add: ex_all)
  from rotate_assigns_cyclically [OF rw rng none pk ch ms chs [symmetric] ord [symmetric]]
  have "assignments (snd (rotate ex_env (ex_req ''2024-06-10'') 1 ex_db)) = assignments ex_db @
         map (\<lambda>(i, c).
               \<lparr>a_id = lastrowid (seq_assignments ex_db) (map a_id (assignments ex_db)) + int i,
                a_household_id = 1, a_week_start = ''2024-06-10'', a_chore_id = c,
                a_member_id = [2, 3, 4, 1] ! (i mod length [2, 3, 4, 1 :: int]),
                a_status = ''assigned'', a_proof_url = None, a_created_at = now_iso ex_env\<rparr>)
           (enumerate 0 [1, 2, 3, 4, 5])"
    by blast
  then have "map (\<lambda>a. (a_id a, a_chore_id a, a_member_id a))
        (drop 7 (assignments (snd (rotate ex_env (ex_req ''2024-06-10'') 1 ex_db))))
      = [(8, 1, 2), (9, 2, 3), (10, 3, 4), (11, 4, 1), (12, 5, 2)]"
    using l by (simp add: lastrowid_def enumerate_eq_zip upt_rec)
  with rw rng none pk chs ord show ?thesis by blast
qed

section \<open>A week that cannot be generated\<close>





section \<open>An insert the uniqueness constraint rejects\<close>

text \<open>
  Claim C2, as stated, fails. A call has passed the check of line 211 on the example store
  (no row for the week), has computed the fair order 2, 3, 4, 1 and the chores 1 to 5, and
  meanwhile another call has committed the week's five rows. Its inserts then run on that
  store: the first one is rejected, and what the caller gets is the
  \<^verbatim>\<open>IntegrityError\<close>, not the rows 8 to 12 that now exist for the week.
\<close>

theorem rotate_insert_conflict_surfaces:
  "filter (\<lambda>a. a_household_id a = 1 \<and> a_week_start a = ''2024-06-10'') (assignments ex_db) = []
   \<and> pick_member_round_robin ex_db 1 ''2024-06-10'' = [2, 3, 4, 1]
   \<and> map c_id (sort_key c_id (filter (\<lambda>c. c_household_id c = 1) (chores ex_db))) = [1, 2, 3, 4, 5]
   \<and> fst (rotate_insert ex_env (ex_req ''2024-06-10'') 1 ''2024-06-10'' [2, 3, 4, 1] [1, 2, 3, 4, 5]
            (snd (rotate ex_env (ex_req ''2024-06-10'') 1 ex_db)))
       = Inl IntegrityError
   \<and> map (a_id \<circ> v_row) (week_rows (snd (rotate ex_env (ex_req ''2024-06-10'') 1 ex_db)) 1 ''2024-06-10'')
       = [8, 9, 10, 11, 12]"
  by (simp add: rotate_defs ex_all)

text \<open>
  Claim C2, amended. \<^verbatim>\<open>rotate\<close> has no handler around its inserts. When one of the keys
  (household, week, chore) it is about to insert is already taken, the call ends with
  \<^verbatim>\<open>IntegrityError\<close> raised to the caller, before \<^verbatim>\<open>commit\<close>: no assignment set is
  returned and the committed store is unchanged.
\<close>

theorem rotate_insert_conflict_raises:
  assumes "order \<noteq> []" and "\<exists>c \<in> set chore_ids. week_key_taken d hid w c"
  shows "rotate_insert e req hid w order chore_ids d = (Inl IntegrityError, d)"
  using assign_loop_conflict [OF assms, of e 0 "[]"] by (simp add: rotate_insert_def)

theorem rotate_insert_conflict_raises_witness:
  "week_key_taken (snd (rotate ex_env (ex_req ''2024-06-10'') 1 ex_db)) 1 ''2024-06-10'' 1
   \<and> rotate_insert ex_env (ex_req ''2024-06-10'') 1 ''2024-06-10'' [2, 3, 4, 1] [1, 2, 3, 4, 5]
        (snd (rotate ex_env (ex_req ''2024-06-10'') 1 ex_db))
       = (Inl IntegrityError, snd (rotate ex_env (ex_req ''2024-06-10'') 1 ex_db))"
proof -
  let ?d = "snd (rotate ex_env (ex_req ''2024-06-10'') 1 ex_db)"
  have t: "week_key_taken ?d 1 ''2024-06-10'' 1"
    by (simp add: rotate_defs ex_all)
  then have "\<exists>c \<in> set [1, 2, 3, 4, 5]. week_key_taken ?d 1 ''2024-06-10'' c" by simp
  from rotate_insert_conflict_raises [OF _ this, of "[2, 3, 4, 1]" ex_env "ex_req ''2024-06-10''"] t
  show ?thesis by simp
qed

section \<open>Asking again for a week that exists\<close>

lemma rotate_replay_keeps_store:
  assumes "requested_week e req = Inr w"
    and "sqlite_int hid"
    and "filter (\<lambda>a. a_household_id a = hid \<and> a_week_start a = w) (assignments d) \<noteq> []"
  shows "rotate e req hid d = (get_current_assignments e req hid d, d)"
  unfolding rotate_def assms(1) using assms(2,3) by simp


text \<open>
  Two calls in a row for a week that had no row: the second call changes nothing, and the
  week then holds one row per chore of the household.
\<close>

lemma rotate_twice_keeps_rows:
  assumes rw: "requested_week e req = Inr w"
    and rng: "sqlite_int hid"
    and none: "filter (\<lambda>a. a_household_id a = hid \<and> a_week_start a = w) (assignments d) = []"
    and pk: "distinct (map c_id (chores d))"
    and ch: "filter (\<lambda>c. c_household_id c = hid) (chores d) \<noteq> []"
    and ms: "filter (\<lambda>m. m_household_id m = hid) (members d) \<noteq> []"
  shows "rotate e req hid (snd (rotate e req hid d))
           = (get_current_assignments e req hid (snd (rotate e req hid d)),
              snd (rotate e req hid d))
     \<and> length (filter (\<lambda>a. a_household_id a = hid \<and> a_week_start a = w)
                 (assignments (snd (rotate e req hid d))))
         = length (filter (\<lambda>c. c_household_id c = hid) (chores d))"
proof -
  let ?chs = "map c_id (sort_key c_id (filter (\<lambda>c. c_household_id c = hid) (chores d)))"
  let ?P = "\<lambda>a. a_household_id a = hid \<and> a_week_start a = w"
  from rotate_fresh_rows [OF rw rng none pk ch ms]
  obtain d' where r: "rotate e req hid d = (get_current_assignments e req hid d', d')"
    and rows: "assignments d' = assignments d @
         map (\<lambda>(i, c).
               \<lparr>a_id = lastrowid (seq_assignments d) (map a_id (assignments d)) + int i,
                a_household_id = hid, a_week_start = w, a_chore_id = c,
                a_member_id = pick_member_round_robin d hid w
                                ! (i mod length (pick_member_round_robin d hid w)),
                a_status = ''assigned'', a_proof_url = None, a_created_at = now_iso e\<rparr>)
           (enumerate 0 ?chs)"
    by (elim exE conjE)
  have len: "length (filter ?P (assignments d')) = length ?chs"
    unfolding rows using none by (simp add: filter_map comp_def case_prod_beta)
  have "length ?chs \<noteq> 0" using ch by simp
  with len have ne: "filter ?P (assignments d') \<noteq> []" by auto
  from rotate_replay_keeps_store [OF rw rng ne] len show ?thesis
    unfolding r by simp
qed

text \<open>
  Claim C1, at the failing input. The example store holds the rows 6 and 7 of household 1
  for the week 2024-06-03. A request on Wednesday 2024-06-12 whose JSON body names that
  week, with no query string, finds them at line 211 and hands over to
  \<^verbatim>\<open>get_current_assignments\<close>, which reads the week from the query string, finds none
  and answers for this week's Monday: week 2024-06-10 and no rows. The store is unchanged.
\<close>

theorem rotate_replay_reads_query_week:
  "requested_week ex_env (ex_req ''2024-06-03'') = Inr ''2024-06-03''
   \<and> map (a_id \<circ> v_row) (week_rows ex_db 1 ''2024-06-03'') = [6, 7]
   \<and> rotate ex_env (ex_req ''2024-06-03'') 1 ex_db
       = (Inr (Assignments_json ''2024-06-10'' []), ex_db)"
  by (simp add: rotate_defs ex_all)

section \<open>Completing an assignment\<close>

text \<open>
  Claim C7, as stated, fails. The route takes any run of digits as the assignment id. No
  row of the example store has the id 9223372036854775808, yet \<^verbatim>\<open>complete_assignment\<close>
  does not answer not found for it: the \<^verbatim>\<open>UPDATE\<close> of line 252 cannot bind the id and
  the call ends with \<^verbatim>\<open>OverflowError\<close>.
\<close>

theorem complete_huge_id_overflows:
  "9223372036854775808 \<notin> a_id ` set (assignments ex_db)
   \<and> complete_assignment ex_req_proof 9223372036854775808 ex_db = (Inl OverflowError, ex_db)
   \<and> fst (complete_assignment ex_req_proof 9223372036854775808 ex_db)
       \<noteq> Inr (Error_json ''not found'' 404)"
  by (simp add: complete_assignment_def sqlite_int_def ex_all)

text \<open>
  Claim C7, amended. For every assignment id that SQLite can hold (below
  9223372036854775808, as every stored id is): when a row with the id exists,
  \<^verbatim>\<open>complete_assignment\<close> answers with the id, the status done and the proof reference
  supplied (none when omitted), and in the store exactly the rows with that id now have
  status done and that proof reference, every other row and table being as before; when
  no row has the id, it answers not found with status 404 and the store is unchanged. For
  a larger id the call ends with \<^verbatim>\<open>OverflowError\<close> and the store is unchanged.
\<close>

theorem complete_assignment_done_or_not_found:
  "(sqlite_int aid \<and> aid \<in> a_id ` set (assignments d) \<longrightarrow>
      fst (complete_assignment req aid d)
        = Inr (Completed_json aid ''done'' (supplied_proof req))
      \<and> length (assignments (snd (complete_assignment req aid d))) = length (assignments d)
      \<and> (\<forall>i < length (assignments d).
            assignments (snd (complete_assignment req aid d)) ! i =
              (if a_id (assignments d ! i) = aid
               then (assignments d ! i)\<lparr>a_status := ''done'', a_proof_url := supplied_proof req\<rparr>
               else assignments d ! i))
      \<and> (\<exists>a \<in> set (assignments (snd (complete_assignment req aid d))).
            a_id a = aid \<and> a_status a = ''done'' \<and> a_proof_url a = supplied_proof req)
      \<and> members (snd (complete_assignment req aid d)) = members d
      \<and> chores (snd (complete_assignment req aid d)) = chores d
      \<and> households (snd (complete_assignment req aid d)) = households d)
   \<and> (sqlite_int aid \<and> aid \<notin> a_id ` set (assignments d) \<longrightarrow>
        complete_assignment req aid d = (Inr (Error_json ''not found'' 404), d))
   \<and> (\<not> sqlite_int aid \<longrightarrow> complete_assignment req aid d = (Inl OverflowError, d))"
proof (intro conjI impI; (elim conjE)?)
  assume "\<not> sqlite_int aid"
  then show "complete_assignment req aid d = (Inl OverflowError, d)"
    by (simp add: complete_assignment_def Let_def)
next
  assume rng: "sqlite_int aid" and "aid \<notin> a_id ` set (assignments d)"
  then have "filter (\<lambda>a. a_id a = aid) (assignments d) = []"
    by (auto simp: filter_empty_conv)
  then show "complete_assignment req aid d = (Inr (Error_json ''not found'' 404), d)"
    using rng by (simp add: complete_assignment_def Let_def)
next
  assume rng: "sqlite_int aid" and ex: "aid \<in> a_id ` set (assignments d)"
  then have ne: "length (filter (\<lambda>a. a_id a = aid) (assignments d)) \<noteq> 0"
    by (auto simp: filter_empty_conv)
  have c: "complete_assignment req aid d =
      (Inr (Completed_json aid ''done'' (supplied_proof req)),
       d\<lparr>assignments :=
           map (\<lambda>a. if a_id a = aid
                     then a\<lparr>a_status := ''done'', a_proof_url := supplied_proof req\<rparr>
                     else a) (assignments d)\<rparr>)"
    using ne rng by (simp add: complete_assignment_def Let_def)
  show "fst (complete_assignment req aid d)
          = Inr (Completed_json aid ''done'' (supplied_proof req))"
    by (simp add: c)
  show "length (assignments (snd (complete_assignment req aid d))) = length (assignments d)"
    by (simp add: c)
  show "\<forall>i < length (assignments d).
            assignments (snd (complete_assignment req aid d)) ! i =
              (if a_id (assignments d ! i) = aid
               then (assignments d ! i)\<lparr>a_status := ''done'', a_proof_url := supplied_proof req\<rparr>
               else assignments d ! i)"
    by (simp add: c)
  from ex obtain a where a: "a \<in> set (assignments d)" "a_id a = aid" by auto
  let ?a = "a\<lparr>a_status := ''done'', a_proof_url := supplied_proof req\<rparr>"
  have "?a \<in> set (assignments (snd (complete_assignment req aid d)))"
    unfolding c using a by (auto intro!: rev_image_eqI [of a])
  moreover have "a_id ?a = aid \<and> a_status ?a = ''done'' \<and> a_proof_url ?a = supplied_proof req"
    using a(2) by simp
  ultimately show "\<exists>a \<in> set (assignments (snd (complete_assignment req aid d))).
            a_id a = aid \<and> a_status a = ''done'' \<and> a_proof_url a = supplied_proof req"
    by (rule bexI [rotated])
  show "members (snd (complete_assignment req aid d)) = members d" by (simp add: c)
  show "chores (snd (complete_assignment req aid d)) = chores d" by (simp add: c)
  show "households (snd (complete_assignment req aid d)) = households d" by (simp add: c)
qed

theorem complete_assignment_witness:
  "sqlite_int 6 \<and> 6 \<in> a_id ` set (assignments ex_db)
   \<and> fst (complete_assignment ex_req_proof 6 ex_db)
       = Inr (Completed_json 6 ''done'' (Some ''https://img.example/sink.jpg''))
   \<and> assignments (snd (complete_assignment ex_req_proof 6 ex_db)) ! 5
       = (mk_assignment 6 1 ''2024-06-03'' 1 4)
           \<lparr>a_status := ''done'', a_proof_url := Some ''https://img.example/sink.jpg''\<rparr>
   \<and> assignments (snd (complete_assignment ex_req_empty 6 ex_db)) ! 5
       = (mk_assignment 6 1 ''2024-06-03'' 1 4)\<lparr>a_status := ''done'', a_proof_url := None\<rparr>
   \<and> assignments (snd (complete_assignment ex_req_proof 6 ex_db)) ! 6
       = mk_assignment 7 1 ''2024-06-03'' 2 4
   \<and> sqlite_int 99 \<and> 99 \<notin> a_id ` set (assignments ex_db)
   \<and> complete_assignment ex_req_proof 99 ex_db = (Inr (Error_json ''not found'' 404), ex_db)
   \<and> \<not> sqlite_int 18446744073709551616
   \<and> complete_assignment ex_req_proof 18446744073709551616 ex_db = (Inl OverflowError, ex_db)"
proof -
  have a: "6 \<in> a_id ` set (assignments ex_db)" by (simp add: ex_all)
  have b: "99 \<notin> a_id ` set (assignments ex_db)" by (simp add: ex_all)
  have g: "sqlite_int 6" "sqlite_int 99" "\<not> sqlite_int 18446744073709551616"
    by (simp_all add: sqlite_int_def)
  have l: "5 < length (assignments ex_db)" "6 < length (assignments ex_db)"
    by (simp_all add: ex_all)
  have r: "assignments ex_db ! 5 = mk_assignment 6 1 ''2024-06-03'' 1 4"
      "assignments ex_db ! 6 = mk_assignment 7 1 ''2024-06-03'' 2 4"
    by (simp_all add: ex_db_def)
  have i: "a_id (mk_assignment 6 1 ''2024-06-03'' 1 4) = 6"
      "a_id (mk_assignment 7 1 ''2024-06-03'' 2 4) = 7"
    by (simp_all add: mk_assignment_def)
  have p: "supplied_proof ex_req_proof = Some ''https://img.example/sink.jpg''"
      "supplied_proof ex_req_empty = None"
    by (simp_all add: supplied_proof_def ex_req_proof_def ex_req_empty_def)
  show ?thesis
    using complete_assignment_done_or_not_found [of 6 ex_db ex_req_proof]
      complete_assignment_done_or_not_found [of 6 ex_db ex_req_empty]
      complete_assignment_done_or_not_found [of 99 ex_db ex_req_proof]
      complete_assignment_done_or_not_found [of 18446744073709551616 ex_db ex_req_proof]
      a b g l
    by (simp add: r i p)
qed

section \<open>What \<^verbatim>\<open>rotate\<close> leaves alone\<close>

lemma rotate_insert_cases:
  "snd (rotate_insert e req hid w order cs d) = d
   \<or> (\<exists>created. assign_loop e hid w order cs 0 [] d
          = Inr (created, snd (rotate_insert e req hid w order cs d)))"
proof (cases "assign_loop e hid w order cs 0 [] d")
  case (Inl x)
  then show ?thesis by (simp add: rotate_insert_def)
next
  case (Inr p)
  then show ?thesis by (cases p) (simp add: rotate_insert_def)
qed

lemma rotate_cases:
  "snd (rotate e req hid d) = d
   \<or> (\<exists>w order cs created. requested_week e req = Inr w
         \<and> assign_loop e hid w order cs 0 [] d = Inr (created, snd (rotate e req hid d)))"
proof (cases "requested_week e req")
  case (Inl x)
  then show ?thesis by (simp add: rotate_def)
next
  case (Inr w)
  let ?cs = "map c_id (sort_key c_id (filter (\<lambda>c. c_household_id c = hid) (chores d)))"
  let ?order = "pick_member_round_robin d hid w"
  have "snd (rotate e req hid d) = d
        \<or> rotate e req hid d = rotate_insert e req hid w ?order ?cs d"
    unfolding rotate_def Inr by (simp add: Let_def)
  then show ?thesis
  proof
    assume "snd (rotate e req hid d) = d"
    then show ?thesis by simp
  next
    assume r: "rotate e req hid d = rotate_insert e req hid w ?order ?cs d"
    from rotate_insert_cases [of e req hid w ?order ?cs d]
    show ?thesis unfolding r using Inr by blast
  qed
qed

lemma insert_assignment_preserves:
  assumes "insert_assignment e hid w c m d = Inr (rid, d1)"
  shows "members d1 = members d \<and> chores d1 = chores d \<and> households d1 = households d
     \<and> (\<forall>a \<in> set (assignments d1). a \<in> set (assignments d)
            \<or> (a_household_id a = hid \<and> a_week_start a = w))"
proof (cases "week_key_taken d hid w c")
  case True
  with assms show ?thesis by (simp add: insert_assignment_taken)
next
  case False
  from assms show ?thesis
    unfolding insert_assignment_free [OF False] by auto
qed

lemma assign_loop_preserves:
  assumes "assign_loop e hid w order cs i created d = Inr (created', d')"
  shows "members d' = members d \<and> chores d' = chores d \<and> households d' = households d
     \<and> (\<forall>a \<in> set (assignments d'). a \<in> set (assignments d)
            \<or> (a_household_id a = hid \<and> a_week_start a = w))"
  using assms
proof (induction cs arbitrary: i created d)
  case Nil
  then show ?case by simp
next
  case (Cons c rest)
  show ?case
  proof (cases "order = []")
    case True
    with Cons.prems show ?thesis by simp
  next
    case False
    show ?thesis
    proof (cases "insert_assignment e hid w c (order ! (i mod length order)) d")
      case (Inl x)
      with Cons.prems False show ?thesis by simp
    next
      case (Inr p)
      obtain rid d1 where p: "p = (rid, d1)" by (cases p)
      from Cons.prems False Inr p
      have loop: "assign_loop e hid w order rest (i + 1) (created @ [rid]) d1 = Inr (created', d')"
        by simp
      from insert_assignment_preserves [OF Inr [unfolded p]] Cons.IH [OF loop]
      show ?thesis by auto
    qed
  qed
qed

lemma rotate_preserves:
  "members (snd (rotate e req hid d)) = members d"
  "chores (snd (rotate e req hid d)) = chores d"
  "households (snd (rotate e req hid d)) = households d"
  using rotate_cases [of e req hid d] assign_loop_preserves [of e hid _ _ _ 0 "[]" d]
  by metis+

lemma rotate_new_rows_week:
  assumes "requested_week e req = Inr w" "a \<in> set (assignments (snd (rotate e req hid d)))"
  shows "a \<in> set (assignments d) \<or> (a_household_id a = hid \<and> a_week_start a = w)"
proof -
  from rotate_cases [of e req hid d]
  show ?thesis
  proof
    assume "snd (rotate e req hid d) = d"
    with assms(2) show ?thesis by simp
  next
    assume "\<exists>w order cs created. requested_week e req = Inr w
         \<and> assign_loop e hid w order cs 0 [] d = Inr (created, snd (rotate e req hid d))"
    then obtain w' order cs created where
      w': "requested_week e req = Inr w'"
      and l: "assign_loop e hid w' order cs 0 [] d = Inr (created, snd (rotate e req hid d))"
      by blast
    from w' assms(1) have "w' = w" by simp
    with assign_loop_preserves [OF l] assms(2) show ?thesis by blast
  qed
qed

section \<open>The week of a request that names none\<close>

lemma weekday_bounds: "0 \<le> weekday n" "weekday n \<le> 6"
  unfolding weekday_def by simp_all

lemma weekday_of_monday: "weekday (n - weekday n) = 0"
proof -
  have "n - (n + 6) mod 7 + 6 = (n + 6) - (n + 6) mod 7"
    by simp
  also have "\<dots> = 7 * ((n + 6) div 7)"
    by (simp add: minus_mod_eq_mult_div)
  finally have "(n - (n + 6) mod 7 + 6) mod 7 = 0" by simp
  then show ?thesis by (simp add: weekday_def)
qed

lemma weekday_shift: "weekday n = (n - 1) mod 7"
proof -
  have "n + 6 = (n - 1) + 7" by simp
  then have "(n + 6) mod 7 = ((n - 1) + 7) mod 7" by (rule arg_cong)
  also have "\<dots> = (n - 1) mod 7" by (rule mod_add_self2)
  finally show ?thesis by (simp add: weekday_def)
qed

lemma monday_in_range:
  assumes "1 \<le> n"
  shows "1 \<le> n - weekday n"
proof -
  have "(n - 1) mod 7 \<le> n - 1"
    using assms by (intro zmod_le_nonneg_dividend) simp
  then show ?thesis by (simp add: weekday_shift)
qed
lemma monday_of_week_today:
  assumes "1 \<le> today e" "today e \<le> 3652059"
  shows "monday_of_week e None = Inr (today e - weekday (today e))"
proof -
  have "1 \<le> today e - weekday (today e)" by (rule monday_in_range [OF assms(1)])
  moreover have "today e - weekday (today e) \<le> 3652059"
    using assms(2) weekday_bounds(1) [of "today e"] by simp
  ultimately show ?thesis
    by (simp add: monday_of_week_def date_sub_days_def Let_def)
qed


text \<open>
  Claim C9. On any day of the calendar, \<^verbatim>\<open>monday_of_week()\<close> returns without raising, and
  the day it returns is a Monday, not after today and less than seven days before it. A
  \<^verbatim>\<open>get_current_assignments\<close> request with no \<^verbatim>\<open>week_start\<close> in the query string answers
  for the ISO rendering of that Monday (unless the household id is too large for SQLite
  to bind, when it ends with \<^verbatim>\<open>OverflowError\<close>), and a \<^verbatim>\<open>rotate\<close> request with no (or an empty)
  \<^verbatim>\<open>week_start\<close> in its body works on that week: every row it adds carries it.
\<close>

theorem default_week_is_this_monday:
  assumes "1 \<le> today e" "today e \<le> 3652059"
  shows "\<exists>m. monday_of_week e None = Inr m
     \<and> weekday m = 0 \<and> m \<le> today e \<and> today e < m + 7 \<and> 1 \<le> m
     \<and> (map_of (args req) ''week_start'' = None \<longrightarrow>
          get_current_assignments e req hid d
            = (if sqlite_int hid
               then Inr (Assignments_json (isoformat e m) (week_rows d hid (isoformat e m)))
               else Inl OverflowError))
     \<and> (map_of (json req) ''week_start'' = None \<or> map_of (json req) ''week_start'' = Some [] \<longrightarrow>
          requested_week e req = Inr (isoformat e m)
          \<and> (\<forall>a \<in> set (assignments (snd (rotate e req hid d))).
                a \<in> set (assignments d)
                \<or> (a_household_id a = hid \<and> a_week_start a = isoformat e m)))"
proof -
  let ?m = "today e - weekday (today e)"
  have m: "monday_of_week e None = Inr ?m" by (rule monday_of_week_today [OF assms])
  have tw: "this_week e = Inr (isoformat e ?m)"
    by (simp add: this_week_def m iso_date_def)
  have g: "get_current_assignments e req hid d
            = (if sqlite_int hid
               then Inr (Assignments_json (isoformat e ?m) (week_rows d hid (isoformat e ?m)))
               else Inl OverflowError)"
    if "map_of (args req) ''week_start'' = None"
    using that by (simp add: get_current_assignments_def tw)
  have rw: "requested_week e req = Inr (isoformat e ?m)"
    if "map_of (json req) ''week_start'' = None \<or> map_of (json req) ''week_start'' = Some []"
    using that by (auto simp: requested_week_def tw)
  have rows: "\<forall>a \<in> set (assignments (snd (rotate e req hid d))).
                a \<in> set (assignments d)
                \<or> (a_household_id a = hid \<and> a_week_start a = isoformat e ?m)"
    if "map_of (json req) ''week_start'' = None \<or> map_of (json req) ''week_start'' = Some []"
  proof
    fix a assume "a \<in> set (assignments (snd (rotate e req hid d)))"
    then show "a \<in> set (assignments d)
                \<or> (a_household_id a = hid \<and> a_week_start a = isoformat e ?m)"
      by (rule rotate_new_rows_week [OF rw [OF that]])
  qed
  show ?thesis
  proof (intro exI [of _ ?m] conjI impI)
    show "monday_of_week e None = Inr ?m" by (rule m)
    show "weekday ?m = 0" by (rule weekday_of_monday)
    show "?m \<le> today e" using weekday_bounds(1) [of "today e"] by simp
    show "today e < ?m + 7" using weekday_bounds(2) [of "today e"] by simp
    show "1 \<le> ?m" by (rule monday_in_range [OF assms(1)])
  next
    assume "map_of (args req) ''week_start'' = None"
    then show "get_current_assignments e req hid d
            = (if sqlite_int hid
               then Inr (Assignments_json (isoformat e ?m) (week_rows d hid (isoformat e ?m)))
               else Inl OverflowError)"
      by (rule g)
  next
    assume a: "map_of (json req) ''week_start'' = None \<or> map_of (json req) ''week_start'' = Some []"
    then show "requested_week e req = Inr (isoformat e ?m)" by (rule rw)
    from a show "\<forall>a \<in> set (assignments (snd (rotate e req hid d))).
                a \<in> set (assignments d)
                \<or> (a_household_id a = hid \<and> a_week_start a = isoformat e ?m)"
      by (rule rows)
  qed
qed

theorem default_week_witness:
  "1 \<le> today ex_env \<and> today ex_env \<le> 3652059
   \<and> weekday (today ex_env) = 2
   \<and> monday_of_week ex_env None = Inr 739047 \<and> weekday 739047 = 0
   \<and> map_of (args ex_req_empty) ''week_start'' = None
   \<and> map_of (json ex_req_empty) ''week_start'' = None
   \<and> requested_week ex_env ex_req_empty = Inr ''2024-06-10''
   \<and> get_current_assignments ex_env ex_req_empty 1 ex_db = Inr (Assignments_json ''2024-06-10'' [])
   \<and> map a_week_start (drop 7 (assignments (snd (rotate ex_env ex_req_empty 1 ex_db))))
       = [''2024-06-10'', ''2024-06-10'', ''2024-06-10'', ''2024-06-10'', ''2024-06-10'']"
proof -
  have t: "1 \<le> today ex_env" "today ex_env \<le> 3652059" "weekday (today ex_env) = 2"
    by (simp_all add: ex_all weekday_def)
  have a: "map_of (args ex_req_empty) ''week_start'' = None"
      "map_of (json ex_req_empty) ''week_start'' = None"
    by (simp_all add: ex_all)
  have iso: "isoformat ex_env 739047 = ''2024-06-10''" by (simp add: ex_all)
  have wr: "week_rows ex_db 1 ''2024-06-10'' = []" by (simp add: week_rows_def ex_all)
  have rows: "map a_week_start (drop 7 (assignments (snd (rotate ex_env ex_req_empty 1 ex_db))))
       = [''2024-06-10'', ''2024-06-10'', ''2024-06-10'', ''2024-06-10'', ''2024-06-10'']"
    by (simp add: rotate_defs ex_all)
  have mo: "monday_of_week ex_env None = Inr 739047"
    by (simp add: monday_of_week_def date_sub_days_def weekday_def ex_all)
  from default_week_is_this_monday [OF t(1,2), of ex_req_empty 1 ex_db]
  obtain m where m: "monday_of_week ex_env None = Inr m" and wd: "weekday m = 0"
    and g: "map_of (args ex_req_empty) ''week_start'' = None \<longrightarrow>
            get_current_assignments ex_env ex_req_empty 1 ex_db
            = (if sqlite_int 1
               then Inr (Assignments_json (isoformat ex_env m)
                      (week_rows ex_db 1 (isoformat ex_env m)))
               else Inl OverflowError)"
    and r: "map_of (json ex_req_empty) ''week_start'' = None
            \<or> map_of (json ex_req_empty) ''week_start'' = Some [] \<longrightarrow>
            requested_week ex_env ex_req_empty = Inr (isoformat ex_env m)
            \<and> (\<forall>a \<in> set (assignments (snd (rotate ex_env ex_req_empty 1 ex_db))).
                a \<in> set (assignments ex_db)
                \<or> (a_household_id a = 1 \<and> a_week_start a = isoformat ex_env m))"
    by (elim exE conjE)
  from m mo have me: "m = 739047" by simp
  from g a(1) have g': "get_current_assignments ex_env ex_req_empty 1 ex_db
      = Inr (Assignments_json ''2024-06-10'' [])"
    by (simp add: me iso wr sqlite_int_def)
  from r a(2) have r': "requested_week ex_env ex_req_empty = Inr ''2024-06-10''"
    by (simp add: me iso)
  from wd have wd': "weekday 739047 = 0" by (simp add: me)
  show ?thesis
    by (intro conjI t a mo wd' r' g' rows)
qed

section \<open>Join orders\<close>

lemma sql_max_Max:
  assumes "xs \<noteq> []"
  shows "sql_max xs = Some (Max (set xs))"
proof (cases xs)
  case Nil
  with assms show ?thesis by simp
next
  case (Cons y ys)
  have "fold max ys y = Max (set (y # ys))" by (rule Max.set_eq_fold [symmetric])
  with Cons show ?thesis by simp
qed

lemma sql_max_upto: "sql_max [1..int n] = (if n = 0 then None else Some (int n))"
proof (cases n)
  case 0
  then show ?thesis by simp
next
  case (Suc k)
  have ne: "[1..int n] \<noteq> []" using Suc by (simp add: upto_Nil)
  have "Max (set [1..int n]) = int n"
    using Suc by (intro Max_eqI) auto
  with sql_max_Max [OF ne] Suc show ?thesis by simp
qed

lemma next_join_order_Max:
  "next_join_order d hid =
     (if filter (\<lambda>m. m_household_id m = hid) (members d) = [] then 1
      else Max (m_join_order ` set (filter (\<lambda>m. m_household_id m = hid) (members d))) + 1)"
proof (cases "filter (\<lambda>m. m_household_id m = hid) (members d) = []")
  case True
  then show ?thesis by (simp add: next_join_order_def)
next
  case False
  then have "map m_join_order (filter (\<lambda>m. m_household_id m = hid) (members d)) \<noteq> []"
    by simp
  from sql_max_Max [OF this] False show ?thesis
    by (simp add: next_join_order_def)
qed

lemma next_join_order_above:
  assumes "m \<in> set (members d)" "m_household_id m = hid"
  shows "m_join_order m < next_join_order d hid"
proof -
  let ?ms = "filter (\<lambda>m. m_household_id m = hid) (members d)"
  from assms have in_ms: "m \<in> set ?ms" by simp
  from length_pos_if_in_set [OF in_ms] have ne: "?ms \<noteq> []"
    by simp
  have "m_join_order m \<le> Max (m_join_order ` set ?ms)"
    using in_ms by (intro Max_ge) auto
  with ne show ?thesis by (simp add: next_join_order_Max)
qed

lemma next_join_order_consecutive:
  assumes "join_orders_consecutive d"
  shows "next_join_order d hid
           = int (length (filter (\<lambda>m. m_household_id m = hid) (members d))) + 1"
proof -
  from assms have "map m_join_order (filter (\<lambda>m. m_household_id m = hid) (members d))
      = [1..int (length (filter (\<lambda>m. m_household_id m = hid) (members d)))]"
    by (simp add: join_orders_consecutive_def)
  then show ?thesis
    by (simp add: next_join_order_def sql_max_upto)
qed

lemma add_member_rejected:
  assumes "map_of (json req) ''name'' = None \<or> map_of (json req) ''name'' = Some []"
  shows "add_member e req hid d = (Inr (Error_json ''name is required'' 400), d)"
  using assms by (auto simp: add_member_def)

lemma add_member_out_of_range:
  assumes "map_of (json req) ''name'' = Some name" "name \<noteq> []" "\<not> sqlite_int hid"
  shows "add_member e req hid d = (Inl OverflowError, d)"
  using assms by (simp add: add_member_def Let_def)

lemma add_member_accepted:
  assumes "map_of (json req) ''name'' = Some name" "name \<noteq> []" "sqlite_int hid"
  shows "add_member e req hid d =
     (Inr (Member_json (lastrowid (seq_members d) (map m_id (members d))) name
        (map_of (json req) ''email'') (next_join_order d hid)),
      d\<lparr>members := members d @
           [\<lparr>m_id = lastrowid (seq_members d) (map m_id (members d)),
             m_household_id = hid, m_name = name, m_email = map_of (json req) ''email'',
             m_join_order = next_join_order d hid, m_created_at = now_iso e\<rparr>],
        seq_members := lastrowid (seq_members d) (map m_id (members d))\<rparr>)"
  using assms by (simp add: add_member_def add_member_insert_def Let_def)

lemma add_member_cases:
  "snd (add_member e req hid d) = d
   \<or> (\<exists>name email. members (snd (add_member e req hid d)) = members d @
           [\<lparr>m_id = lastrowid (seq_members d) (map m_id (members d)),
             m_household_id = hid, m_name = name, m_email = email,
             m_join_order = next_join_order d hid, m_created_at = now_iso e\<rparr>])"
proof (cases "map_of (json req) ''name''")
  case None
  then show ?thesis by (simp add: add_member_rejected)
next
  case (Some name)
  show ?thesis
  proof (cases "name = []")
    case True
    with Some show ?thesis by (simp add: add_member_rejected)
  next
    case False
    show ?thesis
    proof (cases "sqlite_int hid")
      case True
      show ?thesis unfolding add_member_accepted [OF Some False True] by simp
    next
      case out: False
      show ?thesis unfolding add_member_out_of_range [OF Some False out] by simp
    qed
  qed
qed

lemma consecutive_append:
  assumes inv: "join_orders_consecutive d"
    and m: "members d' = members d @ [new]"
    and j: "m_join_order new = next_join_order d (m_household_id new)"
  shows "join_orders_consecutive d'"
  unfolding join_orders_consecutive_def
proof
  fix h
  let ?f = "\<lambda>x. filter (\<lambda>m. m_household_id m = h) (members x)"
  from inv have old: "map m_join_order (?f d) = [1..int (length (?f d))]"
    by (simp add: join_orders_consecutive_def)
  show "map m_join_order (?f d') = [1..int (length (?f d'))]"
  proof (cases "m_household_id new = h")
    case False
    then have "?f d' = ?f d" by (simp add: m)
    with old show ?thesis by simp
  next
    case True
    then have f: "?f d' = ?f d @ [new]" by (simp add: m)
    have "m_join_order new = int (length (?f d)) + 1"
      using j next_join_order_consecutive [OF inv, of h] True by simp
    then show ?thesis
      unfolding f using old by (simp add: upto_rec2)
  qed
qed

lemma consecutive_same_members:
  "join_orders_consecutive d \<Longrightarrow> members d' = members d \<Longrightarrow> join_orders_consecutive d'"
  by (simp add: join_orders_consecutive_def)

lemma consecutive_add_member:
  assumes "join_orders_consecutive d"
  shows "join_orders_consecutive (snd (add_member e req hid d))"
proof -
  from add_member_cases [of e req hid d] show ?thesis
  proof
    assume "snd (add_member e req hid d) = d"
    with assms show ?thesis by simp
  next
    assume "\<exists>name email. members (snd (add_member e req hid d)) = members d @
           [\<lparr>m_id = lastrowid (seq_members d) (map m_id (members d)),
             m_household_id = hid, m_name = name, m_email = email,
             m_join_order = next_join_order d hid, m_created_at = now_iso e\<rparr>]"
    then obtain name email where
      "members (snd (add_member e req hid d)) = members d @
           [\<lparr>m_id = lastrowid (seq_members d) (map m_id (members d)),
             m_household_id = hid, m_name = name, m_email = email,
             m_join_order = next_join_order d hid, m_created_at = now_iso e\<rparr>]"
      by (elim exE)
    from consecutive_append [OF assms this] show ?thesis by simp
  qed
qed

lemma other_handlers_keep_members:
  "members (snd (create_household e req d)) = members d"
  "members (snd (add_chore e req hid d)) = members d"
  "members (snd (complete_assignment req aid d)) = members d"
  by (simp_all add: create_household_def add_chore_def complete_assignment_def Let_def
        split: option.splits)

lemma serial_consecutive: "serial_reachable d \<Longrightarrow> join_orders_consecutive d"
proof (induction rule: serial_reachable.induct)
  case r_init
  show ?case by (simp add: join_orders_consecutive_def init_db_def)
next
  case (r_household d e req)
  then show ?case by (intro consecutive_same_members [OF _ other_handlers_keep_members(1)])
next
  case (r_member d e req hid)
  then show ?case by (intro consecutive_add_member)
next
  case (r_chore d e req hid)
  then show ?case by (intro consecutive_same_members [OF _ other_handlers_keep_members(2)])
next
  case (r_rotate d e req hid)
  then show ?case by (intro consecutive_same_members [OF _ rotate_preserves(1)])
next
  case (r_complete d req aid)
  then show ?case by (intro consecutive_same_members [OF _ other_handlers_keep_members(3)])
qed

lemma ids_increasing_add_member:
  assumes "sorted_wrt (<) (map m_id (members d))"
  shows "sorted_wrt (<) (map m_id (members (snd (add_member e req hid d))))"
proof -
  from add_member_cases [of e req hid d] show ?thesis
  proof
    assume "snd (add_member e req hid d) = d"
    with assms show ?thesis by simp
  next
    assume "\<exists>name email. members (snd (add_member e req hid d)) = members d @
           [\<lparr>m_id = lastrowid (seq_members d) (map m_id (members d)),
             m_household_id = hid, m_name = name, m_email = email,
             m_join_order = next_join_order d hid, m_created_at = now_iso e\<rparr>]"
    then obtain name email where
      m: "members (snd (add_member e req hid d)) = members d @
           [\<lparr>m_id = lastrowid (seq_members d) (map m_id (members d)),
             m_household_id = hid, m_name = name, m_email = email,
             m_join_order = next_join_order d hid, m_created_at = now_iso e\<rparr>]"
      by (elim exE)
    have "\<forall>x \<in> set (map m_id (members d)). x < lastrowid (seq_members d) (map m_id (members d))"
      using lastrowid_fresh by blast
    with assms show ?thesis
      unfolding m by (simp add: sorted_wrt_append)
  qed
qed

lemma serial_ids_increasing: "serial_reachable d \<Longrightarrow> sorted_wrt (<) (map m_id (members d))"
proof (induction rule: serial_reachable.induct)
  case r_init
  show ?case by (simp add: init_db_def)
next
  case (r_household d e req)
  then show ?case by (simp add: other_handlers_keep_members)
next
  case (r_member d e req hid)
  then show ?case by (intro ids_increasing_add_member)
next
  case (r_chore d e req hid)
  then show ?case by (simp add: other_handlers_keep_members)
next
  case (r_rotate d e req hid)
  then show ?case by (simp add: rotate_preserves)
next
  case (r_complete d req aid)
  then show ?case by (simp add: other_handlers_keep_members)
qed

lemma consecutive_increasing:
  assumes "join_orders_consecutive d"
  shows "sorted_wrt (<) (map m_join_order (filter (\<lambda>m. m_household_id m = h) (members d)))"
proof -
  from assms have "map m_join_order (filter (\<lambda>m. m_household_id m = h) (members d))
      = [1..int (length (filter (\<lambda>m. m_household_id m = h) (members d)))]"
    by (simp add: join_orders_consecutive_def)
  then show ?thesis by (simp only: sorted_wrt_upto)
qed

text \<open>
  Claim C8, as stated, fails. Two requests to add a member to household 1 reach the empty
  store at the same time. Each runs its \<^verbatim>\<open>SELECT\<close> of line 149 before the other has
  inserted, so both read join order 1. Ann's row is inserted and committed; then Bob's
  \<^verbatim>\<open>INSERT\<close> of line 151 runs with the join order it read. Nothing in the table forbids
  it: the household now has join order 1 twice, not strictly increasing and reused.
\<close>

theorem add_member_race_repeats_join_order:
  "next_join_order init_db 1 = 1
   \<and> map (\<lambda>m. (m_id m, m_household_id m, m_join_order m))
        (members (snd (add_member ex_env (ex_req_name ''Ann'') 1 init_db))) = [(1, 1, 1)]
   \<and> map (\<lambda>m. (m_id m, m_household_id m, m_join_order m))
        (members (snd (add_member_insert ex_env ''Bob'' None 1 (next_join_order init_db 1)
           (snd (add_member ex_env (ex_req_name ''Ann'') 1 init_db)))))
       = [(1, 1, 1), (2, 1, 1)]
   \<and> \<not> sorted_wrt (<) (map m_join_order (filter (\<lambda>m. m_household_id m = 1)
        (members (snd (add_member_insert ex_env ''Bob'' None 1 (next_join_order init_db 1)
           (snd (add_member ex_env (ex_req_name ''Ann'') 1 init_db)))))))"
  by (simp add: add_member_def add_member_insert_def next_join_order_def lastrowid_def
        init_db_def ex_req_name_def sqlite_int_def Let_def)

text \<open>
  Claim C8, amended. A call of \<^verbatim>\<open>add_member\<close> with a name (and a household id SQLite can
  hold), with no other call between its \<^verbatim>\<open>SELECT\<close> and its \<^verbatim>\<open>INSERT\<close>, adds one member
  row to the household, whose join order is 1 when the household has no member and
  otherwise one more than the largest join order in the household, hence larger than
  every join order already there. When the calls of the handlers run one after the other,
  the join orders of each household are strictly increasing in the order the members were
  added, which is also the order of their ids, so none is used twice.
\<close>

theorem add_member_next_join_order:
  assumes nm: "map_of (json req) ''name'' = Some name" and ne: "name \<noteq> []"
    and rng: "sqlite_int hid"
  shows "\<exists>new. members (snd (add_member e req hid d)) = members d @ [new]
     \<and> m_household_id new = hid
     \<and> fst (add_member e req hid d)
         = Inr (Member_json (m_id new) name (map_of (json req) ''email'') (m_join_order new))
     \<and> m_join_order new =
         (if filter (\<lambda>m. m_household_id m = hid) (members d) = [] then 1
          else Max (m_join_order ` set (filter (\<lambda>m. m_household_id m = hid) (members d))) + 1)
     \<and> (\<forall>m \<in> set (members d). m_household_id m = hid \<longrightarrow> m_join_order m < m_join_order new)
     \<and> (\<forall>m \<in> set (members d). m_id m < m_id new)
     \<and> (serial_reachable d \<longrightarrow>
          (\<forall>h. sorted_wrt (<) (map m_join_order
                  (filter (\<lambda>m. m_household_id m = h) (members (snd (add_member e req hid d))))))
          \<and> sorted_wrt (<) (map m_id (members (snd (add_member e req hid d)))))"
proof -
  let ?new = "\<lparr>m_id = lastrowid (seq_members d) (map m_id (members d)),
             m_household_id = hid, m_name = name, m_email = map_of (json req) ''email'',
             m_join_order = next_join_order d hid, m_created_at = now_iso e\<rparr>"
  note acc = add_member_accepted [OF nm ne rng, of e d]
  show ?thesis
  proof (intro exI [of _ ?new] conjI impI allI ballI)
    show "members (snd (add_member e req hid d)) = members d @ [?new]"
      by (simp add: acc)
    show "m_household_id ?new = hid" by simp
    show "fst (add_member e req hid d)
         = Inr (Member_json (m_id ?new) name (map_of (json req) ''email'') (m_join_order ?new))"
      by (simp add: acc)
    show "m_join_order ?new =
         (if filter (\<lambda>m. m_household_id m = hid) (members d) = [] then 1
          else Max (m_join_order ` set (filter (\<lambda>m. m_household_id m = hid) (members d))) + 1)"
      using next_join_order_Max [of d hid] by simp
  next
    fix m assume "m \<in> set (members d)" "m_household_id m = hid"
    then show "m_join_order m < m_join_order ?new"
      using next_join_order_above [of m d hid] by simp
  next
    fix m assume "m \<in> set (members d)"
    then have "m_id m \<in> set (map m_id (members d))" by simp
    from lastrowid_fresh [OF this, of "seq_members d"]
    show "m_id m < m_id ?new" by simp
  next
    fix h assume "serial_reachable d"
    then have "serial_reachable (snd (add_member e req hid d))" by (rule r_member)
    then have "join_orders_consecutive (snd (add_member e req hid d))"
      by (rule serial_consecutive)
    then show "sorted_wrt (<) (map m_join_order
                  (filter (\<lambda>m. m_household_id m = h) (members (snd (add_member e req hid d)))))"
      by (rule consecutive_increasing)
  next
    assume "serial_reachable d"
    then have "serial_reachable (snd (add_member e req hid d))" by (rule r_member)
    then show "sorted_wrt (<) (map m_id (members (snd (add_member e req hid d))))"
      by (rule serial_ids_increasing)
  qed
qed

theorem add_member_next_join_order_witness:
  "serial_reachable (snd (add_member ex_env (ex_req_name ''Ann'') 1 init_db))
   \<and> map_of (json (ex_req_name ''Bob'')) ''name'' = Some ''Bob''
   \<and> sqlite_int 1
   \<and> fst (add_member ex_env (ex_req_name ''Ann'') 1 init_db)
       = Inr (Member_json 1 ''Ann'' None 1)
   \<and> fst (add_member ex_env (ex_req_name ''Bob'') 1
            (snd (add_member ex_env (ex_req_name ''Ann'') 1 init_db)))
       = Inr (Member_json 2 ''Bob'' None 2)
   \<and> map m_join_order (members (snd (add_member ex_env (ex_req_name ''Bob'') 1
            (snd (add_member ex_env (ex_req_name ''Ann'') 1 init_db))))) = [1, 2]
   \<and> sorted_wrt (<) (map m_join_order (filter (\<lambda>m. m_household_id m = 1)
         (members (snd (add_member ex_env (ex_req_name ''Bob'') 1
            (snd (add_member ex_env (ex_req_name ''Ann'') 1 init_db)))))))
   \<and> fst (add_member ex_env (ex_req_name ''Cy'') 2
            (snd (add_member ex_env (ex_req_name ''Bob'') 1
               (snd (add_member ex_env (ex_req_name ''Ann'') 1 init_db)))))
       = Inr (Member_json 3 ''Cy'' None 1)"
proof -
  let ?d1 = "snd (add_member ex_env (ex_req_name ''Ann'') 1 init_db)"
  let ?d2 = "snd (add_member ex_env (ex_req_name ''Bob'') 1 ?d1)"
  have reach: "serial_reachable ?d1" by (rule r_member [OF r_init])
  have nm: "map_of (json (ex_req_name ''Bob'')) ''name'' = Some ''Bob''"
    by (simp add: ex_req_name_def)
  have ne: "''Bob'' \<noteq> []" by simp
  have rng: "sqlite_int 1" by (simp add: sqlite_int_def)
  have ev: "fst (add_member ex_env (ex_req_name ''Ann'') 1 init_db)
              = Inr (Member_json 1 ''Ann'' None 1)"
      "fst (add_member ex_env (ex_req_name ''Bob'') 1 ?d1) = Inr (Member_json 2 ''Bob'' None 2)"
      "map m_join_order (members ?d2) = [1, 2]"
      "fst (add_member ex_env (ex_req_name ''Cy'') 2 ?d2) = Inr (Member_json 3 ''Cy'' None 1)"
    by (simp_all add: add_member_def add_member_insert_def next_join_order_def lastrowid_def
          init_db_def ex_req_name_def sqlite_int_def Let_def)
  from add_member_next_join_order [OF nm ne rng, where e = ex_env and d = ?d1]
  obtain new where
    "serial_reachable ?d1 \<longrightarrow>
          (\<forall>h. sorted_wrt (<) (map m_join_order
                  (filter (\<lambda>m. m_household_id m = h) (members ?d2))))
          \<and> sorted_wrt (<) (map m_id (members ?d2))"
    by (elim exE conjE)
  with reach have "sorted_wrt (<) (map m_join_order
       (filter (\<lambda>m. m_household_id m = 1) (members ?d2)))"
    by simp
  then show ?thesis
    by (intro conjI reach nm rng ev)
qed

end
